theory Spec2Isabelle
  imports Main "HOL-Library.Monad_Syntax"
begin

section \<open>Values of the program\<close>

text \<open>
  A value thrown in the program. \<open>throw new Error(m)\<close> is \<open>Error m\<close>; any other thrown
  value is \<open>NonError s\<close>, with \<open>s\<close> what \<open>String(error)\<close> yields for it. The top-level
  handler of \<open>index.ts\<close> prints \<open>error.message\<close> for the first and \<open>String(error)\<close> for
  the second.
\<close>

datatype thrown = Error string | NonError string

fun error_text :: "thrown \<Rightarrow> string" where
  "error_text (Error m) = m"
| "error_text (NonError s) = s"

text \<open>
  The JavaScript \<open>number\<close> values that \<open>parseInt(s, 10)\<close> can produce from a string of
  decimal digits: \<open>NaN\<close>, a non-negative double with an integral value, or \<open>Infinity\<close>.
\<close>

datatype number = NaN | Finite nat | Infinity

fun isNaN :: "number \<Rightarrow> bool" where
  "isNaN NaN = True"
| "isNaN (Finite n) = False"
| "isNaN Infinity = False"

text \<open>The comparison \<open>x <= 0\<close> of JavaScript on these values (false for \<open>NaN\<close>).\<close>

fun le_zero :: "number \<Rightarrow> bool" where
  "le_zero NaN = False"
| "le_zero (Finite n) = (n = 0)"
| "le_zero Infinity = False"

text \<open>The number of binary digits of a natural number.\<close>

fun bit_length :: "nat \<Rightarrow> nat" where
  "bit_length n = (if n = 0 then 0 else Suc (bit_length (n div 2)))"

text \<open>
  The double nearest to a natural number (IEEE 754 binary64, round to nearest, ties to
  even), which is the number value \<open>parseInt\<close> returns for a mathematical integer:
  numbers below \<open>2^53\<close> are exact, larger ones keep 53 significant bits, and what rounds
  to \<open>2^1024\<close> or more is \<open>Infinity\<close>. (Past 20 significant digits the language lets an
  implementation read the further digits as zeros; the model reads them all. Either
  way a number is zero only when all its digits are.)
\<close>

definition round_to_double :: "nat \<Rightarrow> number" where
  "round_to_double n =
     (if n < 2 ^ 53 then Finite n
      else
        let e = bit_length n - 53;
            q = n div 2 ^ e;
            r = n mod 2 ^ e;
            h = 2 ^ (e - 1);
            q' = (if h < r \<or> (r = h \<and> odd q) then q + 1 else q);
            v = q' * 2 ^ e
        in if 2 ^ 1024 \<le> v then Infinity else Finite v)"

definition is_digit :: "char \<Rightarrow> bool" where
  "is_digit c = (c \<in> set ''0123456789'')"

definition digit_val :: "char \<Rightarrow> nat" where
  "digit_val c = of_char c - 48"

definition dec_value :: "string \<Rightarrow> nat" where
  "dec_value ds = foldl (\<lambda>acc c. 10 * acc + digit_val c) 0 ds"

text \<open>
  \<open>parseInt(s, 10)\<close> on a string that starts with its digits (the only strings the parser
  passes to it are matches of \<open>\d+\<close>, so white space and sign handling are left out):
  the longest prefix of decimal digits is read; with no digit the result is \<open>NaN\<close>.
\<close>

definition parseInt10 :: "string \<Rightarrow> number" where
  "parseInt10 s =
     (let z = takeWhile is_digit s
      in if z = [] then NaN else round_to_double (dec_value z))"

section \<open>The URL parser (\<open>parsePRUrl\<close>)\<close>

record ParsedPRUrl =
  owner :: string
  repo :: string
  prNumber :: number

text \<open>Matching a literal piece of the pattern at the start of the remaining input.\<close>

fun after_literal :: "string \<Rightarrow> string \<Rightarrow> string option" where
  "after_literal [] s = Some s"
| "after_literal (p # ps) [] = None"
| "after_literal (p # ps) (c # cs) = (if p = c then after_literal ps cs else None)"

text \<open>
  An optional literal (\<open>s?\<close>, \<open>(?:www\.)?\<close>): taken when present. What follows each of
  them in the pattern cannot start the way the optional piece does, so the greedy choice
  is the only one that can lead to a match.
\<close>

definition optional_literal :: "string \<Rightarrow> string \<Rightarrow> string" where
  "optional_literal lit s = (case after_literal lit s of Some r \<Rightarrow> r | None \<Rightarrow> s)"

text \<open>
  A greedy run of one or more characters of a class (\<open>[^/]+\<close>, \<open>\d+\<close>): the matched text
  and the rest. What follows each run in the pattern starts outside the class, so only
  the longest run can lead to a match.
\<close>

definition class_run :: "(char \<Rightarrow> bool) \<Rightarrow> string \<Rightarrow> (string \<times> string) option" where
  "class_run P s =
     (let m = takeWhile P s in if m = [] then None else Some (m, dropWhile P s))"

definition not_slash :: "char \<Rightarrow> bool" where
  "not_slash c = (c \<noteq> CHR ''/'')"

text \<open>
  The match of
  \<^verbatim>\<open>/^https?:\/\/(?:www\.)?github\.com\/([^/]+)\/([^/]+)\/pull\/(\d+)\/?$/\<close>
  against the whole input: the three captures, or \<open>None\<close> when the pattern does not match.
\<close>

definition match_pattern :: "string \<Rightarrow> (string \<times> string \<times> string) option" where
  "match_pattern url =
     do {
       r1 \<leftarrow> after_literal ''http'' url;
       r2 \<leftarrow> after_literal ''://'' (optional_literal ''s'' r1);
       r3 \<leftarrow> after_literal ''github.com/'' (optional_literal ''www.'' r2);
       (own, r4) \<leftarrow> class_run not_slash r3;
       r5 \<leftarrow> after_literal ''/'' r4;
       (rep, r6) \<leftarrow> class_run not_slash r5;
       r7 \<leftarrow> after_literal ''/pull/'' r6;
       (ds, r8) \<leftarrow> class_run is_digit r7;
       if optional_literal ''/'' r8 = [] then Some (own, rep, ds) else None
     }"

definition invalid_url_message :: "string \<Rightarrow> string" where
  "invalid_url_message url =
     ''Invalid GitHub PR URL: '' @ url @
     ''. Expected format: https://github.com/owner/repo/pull/123''"

definition invalid_number_message :: "string \<Rightarrow> string" where
  "invalid_number_message url = ''Invalid PR number in URL: '' @ url"

definition parsePRUrl :: "string \<Rightarrow> thrown + ParsedPRUrl" where
  "parsePRUrl url =
     (case match_pattern url of
        None \<Rightarrow> Inl (Error (invalid_url_message url))
      | Some (own, rep, prNumberStr) \<Rightarrow>
          let n = parseInt10 prNumberStr
          in if isNaN n \<or> le_zero n then Inl (Error (invalid_number_message url))
             else Inr \<lparr>owner = own, repo = rep, prNumber = n\<rparr>)"

text \<open>
  The accepted grammar in the words of the specification,
  \<open>scheme://[www.]host/owner/repo/pull/<digits>[/]\<close>, for the hosting service of the
  program: the scheme is \<open>http\<close> or \<open>https\<close>, the host is \<open>github.com\<close>, owner and
  repository are non-empty path segments, and the digits are ASCII decimal digits.
\<close>

definition pr_url_grammar :: "string \<Rightarrow> string \<Rightarrow> string \<Rightarrow> string \<Rightarrow> bool" where
  "pr_url_grammar u own rep ds \<longleftrightarrow>
     (\<exists>scheme \<in> set [''http'', ''https''].
      \<exists>www \<in> set ['''', ''www.''].
      \<exists>slash \<in> set ['''', ''/''].
        u = scheme @ ''://'' @ www @ ''github.com/'' @ own @ ''/'' @ rep @ ''/pull/'' @ ds @ slash)
     \<and> own \<noteq> [] \<and> list_all not_slash own
     \<and> rep \<noteq> [] \<and> list_all not_slash rep
     \<and> ds \<noteq> [] \<and> list_all is_digit ds"


section \<open>Formatting a parsed reference\<close>

text \<open>The decimal digits of a natural number, most significant first.\<close>

definition digit_char :: "nat \<Rightarrow> char" where
  "digit_char d = char_of (48 + d)"

fun show_nat :: "nat \<Rightarrow> string" where
  "show_nat n =
     (if n < 10 then [digit_char n] else show_nat (n div 10) @ [digit_char (n mod 10)])"

text \<open>
  A number as text. For an integral value this is its decimal digits, which is what
  JavaScript prints for the values below \<open>2^53\<close>; the theorems use it there only.
\<close>

fun number_to_string :: "number \<Rightarrow> string" where
  "number_to_string NaN = ''NaN''"
| "number_to_string (Finite n) = show_nat n"
| "number_to_string Infinity = ''Infinity''"

text \<open>
  Modelled from the spec: \<open>format\<close>, which the repository's sources do not contain. It
  writes a parsed reference in the form the parser's own error message calls the expected
  one, \<open>https://github.com/owner/repo/pull/123\<close>, with the number in decimal digits.
\<close>

definition format_url :: "ParsedPRUrl \<Rightarrow> string" where
  "format_url p =
     ''https://github.com/'' @ owner p @ ''/'' @ repo p @ ''/pull/'' @
     number_to_string (prNumber p)"

text \<open>
  Modelled from the spec: \<open>normalizedForm\<close>, which the repository's sources do not
  contain. The normalized form of a URL of the grammar with owner \<open>own\<close>, repository
  \<open>rep\<close> and digits \<open>ds\<close>: scheme \<open>https\<close>, no \<open>www.\<close>, no leading zeros, no trailing
  slash. It is computed on the text alone, without reading the digits as a number.
\<close>

definition normalizedForm :: "string \<Rightarrow> string \<Rightarrow> string \<Rightarrow> string" where
  "normalizedForm own rep ds =
     ''https://github.com/'' @ own @ ''/'' @ rep @ ''/pull/'' @
     dropWhile (\<lambda>c. c = CHR ''0'') ds"

section \<open>Data of the orchestrator (\<open>types.ts\<close>)\<close>

text \<open>
  A review comment. Its field \<open>id\<close> is written \<open>id'\<close> here; \<open>line\<close> is a number or
  \<open>null\<close> (\<open>None\<close>).
\<close>

record PRComment =
  id' :: nat
  body :: string
  path :: string
  line :: "nat option"
  diffHunk :: string
  user :: string
  createdAt :: string

text \<open>The result of processing a comment; \<open>commitSha\<close> is optional (\<open>commitSha?: string\<close>).\<close>

record CommentProcessResult =
  commentId :: nat
  fixed :: bool
  commitSha :: "string option"
  message :: string

text \<open>
  The options object the action receives: \<open>{ dryRun?: boolean; directory?: string }\<close>.
  \<open>None\<close> is \<open>undefined\<close>.
\<close>

record options =
  dryRun :: "bool option"
  directory :: "string option"

fun truthy :: "bool option \<Rightarrow> bool" where
  "truthy (Some b) = b"
| "truthy None = False"

section \<open>The collaborators (\<open>github.ts\<close>, \<open>claude.ts\<close>)\<close>

text \<open>
  The three asynchronous functions the action awaits act on the world outside the
  program (the working directory, the hosting service, the coding agent). A call takes
  the state \<open>'w\<close> of that world and returns either the thrown value or the result,
  with the state it leaves. As the repository has them, each one throws
  \<open>Error("Not implemented")\<close> and touches nothing.
\<close>

definition checkoutPRBranch :: "number \<Rightarrow> string \<Rightarrow> 'w \<Rightarrow> (thrown + unit) \<times> 'w" where
  "checkoutPRBranch prNum repoDir w = (Inl (Error ''Not implemented''), w)"

definition fetchPRComments ::
  "string \<Rightarrow> string \<Rightarrow> number \<Rightarrow> 'w \<Rightarrow> (thrown + PRComment list) \<times> 'w" where
  "fetchPRComments own rep prNum w = (Inl (Error ''Not implemented''), w)"

definition processCommentWithClaude ::
  "PRComment \<Rightarrow> 'w \<Rightarrow> (thrown + CommentProcessResult) \<times> 'w" where
  "processCommentWithClaude comment w = (Inl (Error ''Not implemented''), w)"

text \<open>
  The action is modelled for any collaborators of these types, so that what it does
  with their results and failures can be stated; \<open>repository_env\<close> binds the ones the
  repository has. \<open>process_cwd\<close> is what \<open>process.cwd()\<close> returns.
\<close>

record 'w env =
  process_cwd :: string
  call_checkout :: "number \<Rightarrow> string \<Rightarrow> 'w \<Rightarrow> (thrown + unit) \<times> 'w"
  call_fetch :: "string \<Rightarrow> string \<Rightarrow> number \<Rightarrow> 'w \<Rightarrow> (thrown + PRComment list) \<times> 'w"
  call_process :: "PRComment \<Rightarrow> 'w \<Rightarrow> (thrown + CommentProcessResult) \<times> 'w"

definition repository_env :: "string \<Rightarrow> 'w env" where
  "repository_env dir =
     \<lparr>process_cwd = dir,
      call_checkout = checkoutPRBranch,
      call_fetch = fetchPRComments,
      call_process = processCommentWithClaude\<rparr>"

section \<open>The command line (\<open>index.ts\<close>)\<close>

text \<open>The options the program declares with \<open>.option(flags, description)\<close>.\<close>

record option_decl =
  flags :: string
  description :: string

definition program_options :: "option_decl list" where
  "program_options =
     [\<lparr>flags = ''--dry-run'', description = ''Preview without making changes''\<rparr>,
      \<lparr>flags = ''-d, --directory <path>'',
       description = ''Path to the repository directory (defaults to current directory)''\<rparr>]"

text \<open>
  The names in a flags string: its pieces between commas and spaces that start with a
  dash (\<open><path>\<close> names the value, not a flag).
\<close>

fun pieces :: "string \<Rightarrow> string \<Rightarrow> string list" where
  "pieces acc [] = (if acc = [] then [] else [rev acc])"
| "pieces acc (c # cs) =
     (if c = CHR '','' \<or> c = CHR '' ''
      then (if acc = [] then pieces [] cs else rev acc # pieces [] cs)
      else pieces (c # acc) cs)"

definition flag_names :: "string \<Rightarrow> string list" where
  "flag_names fl = filter (\<lambda>t. take 1 t = ''-'') (pieces [] fl)"

text \<open>
  The flags the command line accepts: the declared ones, and those the command-line
  library adds for \<open>.version(...)\<close> and for help.
\<close>

definition accepted_flags :: "string list" where
  "accepted_flags =
     concat (map (\<lambda>d. flag_names (flags d)) program_options) @
     [''-V'', ''--version'', ''-h'', ''--help'']"

text \<open>
  What a run does, in order: the lines it prints, the calls it makes to its
  collaborators, and the exit it requests. The printed lines are kept by their parts:
  \<^item> \<open>LogProcessingPR u\<close>: \<^verbatim>\<open>Processing PR: u\<close>;
  \<^item> \<open>LogRepositoryDirectory d\<close>: \<^verbatim>\<open>Repository directory: d\<close>;
  \<^item> \<open>LogParsed o r n\<close>: \<^verbatim>\<open>Parsed: o/r#n\<close>;
  \<^item> \<open>LogCheckedOut\<close>: \<^verbatim>\<open>Checked out PR branch\<close>;
  \<^item> \<open>LogFound k\<close>: \<^verbatim>\<open>Found k review comments\<close>;
  \<^item> \<open>LogProcessingCommentBy a\<close>: \<^verbatim>\<open>Processing comment by a:\<close>;
  \<^item> \<open>LogBodyPreview s\<close>: \<open>s\<close>, the first 100 characters of the body, followed by
    \<^verbatim>\<open>...\<close>;
  \<^item> \<open>LogFixed c\<close>: \<^verbatim>\<open>Fixed and committed: c\<close>, where \<open>None\<close> prints as
    \<^verbatim>\<open>undefined\<close>;
  \<^item> \<open>LogNoChanges m\<close>: \<^verbatim>\<open>- No changes needed: m\<close>;
  \<^item> \<open>LogDone\<close>: \<^verbatim>\<open>Done! Review the commits and push when ready.\<close>;
  \<^item> \<open>ConsoleError m\<close>: \<^verbatim>\<open>Error: m\<close> on the error stream;
  \<^item> \<open>ProcessExit n\<close>: \<open>process.exit(n)\<close>.
  \<open>CallCheckout\<close>, \<open>CallFetch\<close> and \<open>CallProcess\<close> are the calls of
  \<open>checkoutPRBranch\<close>, \<open>fetchPRComments\<close> and \<open>processCommentWithClaude\<close> with their
  arguments.
\<close>

datatype event =
    LogProcessingPR string
  | LogRepositoryDirectory string
  | LogParsed string string number
  | CallCheckout number string
  | LogCheckedOut
  | CallFetch string string number
  | LogFound nat
  | LogProcessingCommentBy string
  | LogBodyPreview string
  | CallProcess PRComment
  | LogFixed "string option"
  | LogNoChanges string
  | LogDone
  | ConsoleError string
  | ProcessExit nat

fun is_checkout :: "event \<Rightarrow> bool" where
  "is_checkout (CallCheckout n d) = True"
| "is_checkout e = False"

fun is_agent_call :: "event \<Rightarrow> bool" where
  "is_agent_call (CallProcess c) = True"
| "is_agent_call e = False"

fun is_fetch :: "event \<Rightarrow> bool" where
  "is_fetch (CallFetch ow rp n) = True"
| "is_fetch e = False"

fun is_found :: "event \<Rightarrow> bool" where
  "is_found (LogFound k) = True"
| "is_found e = False"

text \<open>
  The exit code of a run: that of \<open>process.exit\<close> when the run ends with it, and 0 when
  the action returns.
\<close>

definition exit_code :: "event list \<Rightarrow> nat" where
  "exit_code t = (case rev t of ProcessExit n # r \<Rightarrow> n | _ \<Rightarrow> 0)"

text \<open>
  A run that ends on the error path with the text \<open>m\<close>: its last two events are the
  line \<^verbatim>\<open>Error: m\<close> on the error stream and \<open>process.exit(1)\<close>, and its exit code is 1.
\<close>

definition ends_in_failure :: "event list \<Rightarrow> string \<Rightarrow> bool" where
  "ends_in_failure t m \<longleftrightarrow>
     2 \<le> length t
     \<and> drop (length t - 2) t = [ConsoleError m, ProcessExit 1]
     \<and> exit_code t = 1"

text \<open>The two branches on \<open>result.fixed\<close>.\<close>

definition report :: "CommentProcessResult \<Rightarrow> event" where
  "report result =
     (if fixed result then LogFixed (commitSha result) else LogNoChanges (message result))"

text \<open>
  The loop \<open>for (const comment of comments)\<close>: the events, the state of the world and
  the value thrown out of the loop, if any. Nothing in the loop catches.
\<close>

fun process_comments ::
  "'w env \<Rightarrow> options \<Rightarrow> PRComment list \<Rightarrow> 'w \<Rightarrow> event list \<times> 'w \<times> thrown option" where
  "process_comments env opts [] w = ([], w, None)"
| "process_comments env opts (comment # rest) w =
     (let t = [LogProcessingCommentBy (user comment), LogBodyPreview (take 100 (body comment))]
      in if \<not> truthy (dryRun opts)
         then (case call_process env comment w of
                 (Inl e, w1) \<Rightarrow> (t @ [CallProcess comment], w1, Some e)
               | (Inr result, w1) \<Rightarrow>
                   (case process_comments env opts rest w1 of
                      (t', w2, x) \<Rightarrow> (t @ [CallProcess comment, report result] @ t', w2, x)))
         else (case process_comments env opts rest w of
                 (t', w2, x) \<Rightarrow> (t @ t', w2, x)))"

text \<open>The guarded checkout: \<open>if (!options.dryRun) { await checkoutPRBranch(...); ... }\<close>.\<close>

definition checkout_step ::
  "'w env \<Rightarrow> options \<Rightarrow> number \<Rightarrow> string \<Rightarrow> 'w \<Rightarrow> event list \<times> 'w \<times> thrown option" where
  "checkout_step env opts prNum repoDir w =
     (if \<not> truthy (dryRun opts)
      then (case call_checkout env prNum repoDir w of
              (Inl e, w1) \<Rightarrow> ([CallCheckout prNum repoDir], w1, Some e)
            | (Inr u, w1) \<Rightarrow> ([CallCheckout prNum repoDir, LogCheckedOut], w1, None))
      else ([], w, None))"

text \<open>\<open>options.directory || process.cwd()\<close>: the empty string is falsy too.\<close>

definition repo_dir :: "'w env \<Rightarrow> options \<Rightarrow> string" where
  "repo_dir env opts =
     (case directory opts of
        None \<Rightarrow> process_cwd env
      | Some d \<Rightarrow> if d = [] then process_cwd env else d)"

text \<open>The body of the \<open>try\<close> block.\<close>

definition try_body ::
  "'w env \<Rightarrow> string \<Rightarrow> options \<Rightarrow> 'w \<Rightarrow> event list \<times> 'w \<times> thrown option" where
  "try_body env prUrl opts w =
     (let repoDir = repo_dir env opts;
          t0 = [LogProcessingPR prUrl, LogRepositoryDirectory repoDir]
      in case parsePRUrl prUrl of
           Inl e \<Rightarrow> (t0, w, Some e)
         | Inr p \<Rightarrow>
             (let t1 = t0 @ [LogParsed (owner p) (repo p) (prNumber p)]
              in case checkout_step env opts (prNumber p) repoDir w of
                   (t2, w1, Some e) \<Rightarrow> (t1 @ t2, w1, Some e)
                 | (t2, w1, None) \<Rightarrow>
                     (let t3 = t1 @ t2 @ [CallFetch (owner p) (repo p) (prNumber p)]
                      in case call_fetch env (owner p) (repo p) (prNumber p) w1 of
                           (Inl e, w2) \<Rightarrow> (t3, w2, Some e)
                         | (Inr comments, w2) \<Rightarrow>
                             (case process_comments env opts comments w2 of
                                (t4, w3, Some e) \<Rightarrow>
                                  (t3 @ [LogFound (length comments)] @ t4, w3, Some e)
                              | (t4, w3, None) \<Rightarrow>
                                  (t3 @ [LogFound (length comments)] @ t4 @ [LogDone], w3,
                                   None)))))"

text \<open>
  The action: the \<open>try\<close> block, and the \<open>catch\<close> that prints the message of what was
  thrown and calls \<open>process.exit(1)\<close>.
\<close>

definition action :: "'w env \<Rightarrow> string \<Rightarrow> options \<Rightarrow> 'w \<Rightarrow> event list \<times> 'w" where
  "action env prUrl opts w =
     (case try_body env prUrl opts w of
        (t, w', None) \<Rightarrow> (t, w')
      | (t, w', Some e) \<Rightarrow> (t @ [ConsoleError (error_text e), ProcessExit 1], w'))"

section \<open>A working directory and collaborators for concrete runs\<close>

text \<open>
  A state of the world for the concrete runs below: the head commit of the working
  directory, its uncommitted paths, and the head of the remote branch.
\<close>

record worktree =
  head_commit :: string
  uncommitted :: "string list"
  remote_head :: string

definition comment_a :: PRComment where
  "comment_a =
     \<lparr>id' = 1, body = ''rename this variable'', path = ''src/a.ts'', line = Some 3,
      diffHunk = ''@@ -1 +1 @@'', user = ''alice'', createdAt = ''2024-01-23T00:00:00Z''\<rparr>"

definition comment_b :: PRComment where
  "comment_b =
     \<lparr>id' = 2, body = ''add a test'', path = ''src/b.ts'', line = None,
      diffHunk = ''@@ -2 +2 @@'', user = ''bob'', createdAt = ''2024-01-23T00:01:00Z''\<rparr>"

text \<open>A checkout that succeeds, and a fetch that returns the two comments.\<close>

definition checkout_ok :: "number \<Rightarrow> string \<Rightarrow> worktree \<Rightarrow> (thrown + unit) \<times> worktree" where
  "checkout_ok prNum repoDir w = (Inr (), w\<lparr>head_commit := ''pr-head''\<rparr>)"

definition fetch_two ::
  "string \<Rightarrow> string \<Rightarrow> number \<Rightarrow> worktree \<Rightarrow> (thrown + PRComment list) \<times> worktree" where
  "fetch_two own rep prNum w = (Inr [comment_a, comment_b], w)"

text \<open>An agent that commits for every comment, moving the head of the working directory.\<close>

definition agent_commits ::
  "PRComment \<Rightarrow> worktree \<Rightarrow> (thrown + CommentProcessResult) \<times> worktree" where
  "agent_commits comment w =
     (Inr \<lparr>commentId = id' comment, fixed = True,
           commitSha = Some (''fix-for-'' @ user comment), message = ''fixed''\<rparr>,
      w\<lparr>head_commit := ''fix-for-'' @ user comment\<rparr>)"

definition working_env :: "worktree env" where
  "working_env =
     \<lparr>process_cwd = ''/work'', call_checkout = checkout_ok, call_fetch = fetch_two,
      call_process = agent_commits\<rparr>"

text \<open>The same, with the repository's own \<open>processCommentWithClaude\<close>, which throws.\<close>

definition failing_agent_env :: "worktree env" where
  "failing_agent_env = working_env\<lparr>call_process := processCommentWithClaude\<rparr>"

text \<open>A checkout that itself refuses a working directory with uncommitted paths.\<close>

definition checkout_clean_only ::
  "number \<Rightarrow> string \<Rightarrow> worktree \<Rightarrow> (thrown + unit) \<times> worktree" where
  "checkout_clean_only prNum repoDir w =
     (if uncommitted w \<noteq> [] then (Inl (Error ''Working directory is not clean''), w)
      else (Inr (), w\<lparr>head_commit := ''pr-head''\<rparr>))"

definition guarded_env :: "worktree env" where
  "guarded_env = working_env\<lparr>call_checkout := checkout_clean_only\<rparr>"

text \<open>A checkout that throws a string, not an \<open>Error\<close> object.\<close>

definition checkout_throws_text ::
  "number \<Rightarrow> string \<Rightarrow> worktree \<Rightarrow> (thrown + unit) \<times> worktree" where
  "checkout_throws_text prNum repoDir w = (Inl (NonError ''no such branch''), w)"

definition text_throwing_env :: "worktree env" where
  "text_throwing_env = working_env\<lparr>call_checkout := checkout_throws_text\<rparr>"

definition plain_run :: options where
  "plain_run = \<lparr>dryRun = None, directory = None\<rparr>"

definition dry_run :: options where
  "dry_run = \<lparr>dryRun = Some True, directory = None\<rparr>"

definition clean_tree :: worktree where
  "clean_tree = \<lparr>head_commit = ''base'', uncommitted = [], remote_head = ''base''\<rparr>"

definition dirty_tree :: worktree where
  "dirty_tree = \<lparr>head_commit = ''base'', uncommitted = [''src/a.ts''], remote_head = ''base''\<rparr>"

definition pr_12 :: string where
  "pr_12 = ''https://github.com/owner/repo/pull/12''"


section \<open>Properties of the parser\<close>

declare bit_length.simps [simp del]
declare show_nat.simps [simp del]

subsection \<open>The pattern and the grammar\<close>

lemma after_literal_iff: "after_literal p s = Some r \<longleftrightarrow> s = p @ r"
  by (induction p s rule: after_literal.induct) auto

lemma class_run_SomeD:
  assumes "class_run P s = Some (m, r)"
  shows "s = m @ r" "m \<noteq> []" "list_all P m" "r = [] \<or> \<not> P (hd r)"
proof -
  from assms have m: "m = takeWhile P s" and r: "r = dropWhile P s" and ne: "m \<noteq> []"
    by (auto simp: class_run_def Let_def split: if_splits)
  show "s = m @ r" by (simp add: m r)
  show "m \<noteq> []" by (rule ne)
  show "list_all P m" by (auto simp: m list_all_iff dest: set_takeWhileD)
  show "r = [] \<or> \<not> P (hd r)" unfolding r by (metis hd_dropWhile)
qed

lemma class_run_SomeI:
  assumes "m \<noteq> []" "list_all P m" "r = [] \<or> \<not> P (hd r)"
  shows "class_run P (m @ r) = Some (m, r)"
proof -
  have "takeWhile P (m @ r) = m"
  proof (cases r)
    case Nil
    with assms(2) show ?thesis by (simp add: list_all_iff)
  next
    case (Cons x xs)
    with assms(3) have "\<not> P x" by simp
    with assms(2) Cons show ?thesis by (simp add: list_all_iff takeWhile_tail)
  qed
  moreover have "dropWhile P (m @ r) = r"
  proof (cases r)
    case Nil
    with assms(2) show ?thesis by (simp add: list_all_iff)
  next
    case (Cons x xs)
    with assms(3) have "\<not> P x" by simp
    with assms(2) Cons show ?thesis by (simp add: list_all_iff dropWhile_append2)
  qed
  ultimately show ?thesis using assms(1) by (simp add: class_run_def)
qed

lemma optional_literal_cases:
  "optional_literal lit s = r \<Longrightarrow> s = lit @ r \<or> s = r"
  by (auto simp: optional_literal_def after_literal_iff split: option.splits)

text \<open>A URL of the grammar is matched, with its components as the captures.\<close>

lemma grammar_match:
  assumes "pr_url_grammar u own rep ds"
  shows "match_pattern u = Some (own, rep, ds)"
proof -
  from assms obtain scheme www slash where
    sch0: "scheme \<in> set [''http'', ''https'']" and
    www0: "www \<in> set ['''', ''www.'']" and
    sl0: "slash \<in> set ['''', ''/'']" and
    u: "u = scheme @ ''://'' @ www @ ''github.com/'' @ own @ ''/'' @ rep @ ''/pull/'' @ ds @ slash"
    unfolding pr_url_grammar_def by blast
  from assms have own: "own \<noteq> []" "list_all not_slash own"
    and rep: "rep \<noteq> []" "list_all not_slash rep"
    and ds: "ds \<noteq> []" "list_all is_digit ds"
    unfolding pr_url_grammar_def by blast+
  from sch0 have sch: "scheme = ''http'' \<or> scheme = ''https''" by simp
  from www0 have www: "www = [] \<or> www = ''www.''" by simp
  from sl0 have sl: "slash = [] \<or> slash = ''/''" by simp
  let ?t3 = "ds @ slash"
  let ?t2 = "rep @ ''/pull/'' @ ?t3"
  let ?t1 = "own @ ''/'' @ ?t2"
  have r3: "class_run is_digit ?t3 = Some (ds, slash)"
    using ds sl by (intro class_run_SomeI) (auto simp: is_digit_def)
  have r2: "class_run not_slash (rep @ (''/pull/'' @ ?t3)) = Some (rep, ''/pull/'' @ ?t3)"
    using rep by (intro class_run_SomeI) (auto simp: not_slash_def)
  have r1: "class_run not_slash (own @ (''/'' @ ?t2)) = Some (own, ''/'' @ ?t2)"
    using own by (intro class_run_SomeI) (auto simp: not_slash_def)
  have fin: "optional_literal ''/'' slash = []"
    using sl by (auto simp: optional_literal_def)
  have pre: "after_literal ''http'' u = Some (drop 4 u)"
    using sch by (auto simp: u)
  have s2: "after_literal ''://'' (optional_literal ''s'' (drop 4 u)) = Some (www @ ''github.com/'' @ ?t1)"
    using sch by (auto simp: u optional_literal_def)
  have s3: "after_literal ''github.com/'' (optional_literal ''www.'' (www @ ''github.com/'' @ ?t1)) = Some ?t1"
    using www by (auto simp: optional_literal_def after_literal_iff)
  have a5: "after_literal ''/'' (''/'' @ ?t2) = Some ?t2"
    by (simp add: after_literal_iff)
  have a7: "after_literal ''/pull/'' (''/pull/'' @ ?t3) = Some ?t3"
    by (simp add: after_literal_iff)
  show ?thesis
    unfolding match_pattern_def
    by (simp only: pre s2 s3 r1 r2 r3 a5 a7 fin Option.bind.simps prod.case) simp
qed

text \<open>Whatever the pattern matches is a URL of the grammar.\<close>

lemma match_grammar:
  assumes "match_pattern u = Some (own, rep, ds)"
  shows "pr_url_grammar u own rep ds"
proof -
  from assms obtain r1 r2 r3 r4 r5 r6 r7 r8 where
    a1: "after_literal ''http'' u = Some r1" and
    a2: "after_literal ''://'' (optional_literal ''s'' r1) = Some r2" and
    a3: "after_literal ''github.com/'' (optional_literal ''www.'' r2) = Some r3" and
    a4: "class_run not_slash r3 = Some (own, r4)" and
    a5: "after_literal ''/'' r4 = Some r5" and
    a6: "class_run not_slash r5 = Some (rep, r6)" and
    a7: "after_literal ''/pull/'' r6 = Some r7" and
    a8: "class_run is_digit r7 = Some (ds, r8)" and
    a9: "optional_literal ''/'' r8 = []"
    unfolding match_pattern_def
    by (fastforce simp: bind_eq_Some_conv split: if_splits)
  have b1: "u = ''http'' @ r1" using a1 by (simp only: after_literal_iff)
  have b2: "optional_literal ''s'' r1 = ''://'' @ r2" using a2 by (simp only: after_literal_iff)
  have b3: "optional_literal ''www.'' r2 = ''github.com/'' @ r3" using a3 by (simp only: after_literal_iff)
  have b5: "r4 = ''/'' @ r5" using a5 by (simp only: after_literal_iff)
  have b7: "r6 = ''/pull/'' @ r7" using a7 by (simp only: after_literal_iff)
  from optional_literal_cases[OF b2]
  have "r1 = ''://'' @ r2 \<or> r1 = ''s'' @ ''://'' @ r2" by blast
  then obtain scheme where sch: "scheme \<in> set [''http'', ''https'']" and u1: "u = scheme @ ''://'' @ r2"
  proof
    assume "r1 = ''://'' @ r2"
    then have "u = ''http'' @ ''://'' @ r2" using b1 by simp
    then show ?thesis using that[of "''http''"] by simp
  next
    assume "r1 = ''s'' @ ''://'' @ r2"
    then have "u = ''https'' @ ''://'' @ r2" using b1 by simp
    then show ?thesis using that[of "''https''"] by simp
  qed
  from optional_literal_cases[OF b3]
  have "r2 = ''github.com/'' @ r3 \<or> r2 = ''www.'' @ ''github.com/'' @ r3" by blast
  then obtain www where www: "www \<in> set ['''', ''www.'']" and u2: "r2 = www @ ''github.com/'' @ r3"
  proof
    assume "r2 = ''github.com/'' @ r3"
    then show ?thesis using that[of "[]"] by simp
  next
    assume "r2 = ''www.'' @ ''github.com/'' @ r3"
    then show ?thesis using that[of "''www.''"] by simp
  qed
  from optional_literal_cases[OF a9]
  have sl: "r8 \<in> set ['''', ''/'']" by auto
  note d4 = class_run_SomeD[OF a4] and d6 = class_run_SomeD[OF a6] and d8 = class_run_SomeD[OF a8]
  have "u = scheme @ ''://'' @ www @ ''github.com/'' @ own @ ''/'' @ rep @ ''/pull/'' @ ds @ r8"
    by (simp only: u1 u2 d4(1) d6(1) d8(1) b5 b7 append_assoc)
  with sch www sl have "\<exists>scheme \<in> set [''http'', ''https''].
      \<exists>www \<in> set ['''', ''www.''].
      \<exists>slash \<in> set ['''', ''/''].
        u = scheme @ ''://'' @ www @ ''github.com/'' @ own @ ''/'' @ rep @ ''/pull/'' @ ds @ slash"
    by blast
  with d4(2,3) d6(2,3) d8(2,3) show ?thesis
    unfolding pr_url_grammar_def by blast
qed


subsection \<open>The PR number\<close>

lemma bit_length_bound: "n \<noteq> 0 \<Longrightarrow> 2 ^ bit_length n \<le> 2 * n"
proof (induction n rule: bit_length.induct)
  case (1 n)
  show ?case
  proof (cases "n div 2 = 0")
    case True
    with "1.prems" have "n = 1" by (simp add: div_eq_0_iff) 
    then show ?thesis by (simp add: bit_length.simps[of "Suc 0"] bit_length.simps[of 0])
  next
    case False
    with "1.IH" "1.prems" have "2 ^ bit_length (n div 2) \<le> 2 * (n div 2)" by simp
    also have "\<dots> \<le> n" by simp
    finally show ?thesis using "1.prems" by (simp add: bit_length.simps[of n])
  qed
qed

lemma round_to_double_not_NaN: "\<not> isNaN (round_to_double n)"
  by (simp add: round_to_double_def Let_def)

lemma round_to_double_exact: "n < 2 ^ 53 \<Longrightarrow> round_to_double n = Finite n"
  by (simp add: round_to_double_def)

lemma round_to_double_zero: "round_to_double n = Finite 0 \<longleftrightarrow> n = 0"
proof (cases "n < 2 ^ 53")
  case True
  then show ?thesis by (simp add: round_to_double_def)
next
  case False
  then have n0: "n \<noteq> 0" by auto
  define e where "e = bit_length n - 53"
  have "bit_length n \<noteq> 0" using n0 by (simp add: bit_length.simps[of n])
  then have "e < bit_length n" by (simp add: e_def)
  then have "(2::nat) ^ Suc e \<le> 2 ^ bit_length n" by (intro power_increasing) auto
  also have "\<dots> \<le> 2 * n" by (rule bit_length_bound[OF n0])
  finally have "2 ^ e \<le> n" by simp
  then have q: "0 < n div 2 ^ e" by (simp add: div_greater_zero_iff)
  then show ?thesis using False n0
    by (auto simp: round_to_double_def Let_def e_def[symmetric])
qed

lemma le_zero_round: "le_zero (round_to_double n) \<longleftrightarrow> n = 0"
  using round_to_double_zero[of n] by (cases "round_to_double n") auto

lemma parseInt10_digits:
  "ds \<noteq> [] \<Longrightarrow> list_all is_digit ds \<Longrightarrow> parseInt10 ds = round_to_double (dec_value ds)"
  by (simp add: parseInt10_def list_all_iff takeWhile_eq_all_conv[THEN iffD2])

lemma parsePRUrl_grammar:
  assumes "pr_url_grammar u own rep ds"
  shows "parsePRUrl u =
    (if dec_value ds = 0 then Inl (Error (invalid_number_message u))
     else Inr \<lparr>owner = own, repo = rep, prNumber = round_to_double (dec_value ds)\<rparr>)"
proof -
  from assms have ds: "ds \<noteq> []" "list_all is_digit ds"
    unfolding pr_url_grammar_def by blast+
  show ?thesis
    by (simp add: parsePRUrl_def grammar_match[OF assms] parseInt10_digits[OF ds]
        le_zero_round round_to_double_not_NaN Let_def)
qed

lemma parsePRUrl_no_grammar:
  assumes "\<nexists>own rep ds. pr_url_grammar u own rep ds"
  shows "parsePRUrl u = Inl (Error (invalid_url_message u))"
proof (cases "match_pattern u")
  case None
  then show ?thesis by (simp add: parsePRUrl_def)
next
  case (Some t)
  obtain own rep ds where "t = (own, rep, ds)" by (cases t) auto
  with Some assms match_grammar show ?thesis by blast
qed

text \<open>
  Claim C2. \<open>parsePRUrl\<close> returns a reference exactly for the strings of the grammar
  \<open>scheme://[www.]host/owner/repo/pull/<digits>[/]\<close> (scheme \<open>http\<close> or \<open>https\<close>, host
  \<open>github.com\<close>) whose digits denote a positive number. On every other string it fails
  with an error that names the URL as invalid: \<open>Invalid GitHub PR URL: ...\<close> when the
  string is not of the grammar, \<open>Invalid PR number in URL: ...\<close> when it is and the
  number is zero. Being a function of the string alone, it is pure, and it has a value
  on every string.
\<close>

theorem parsePRUrl_accepts_exactly_the_grammar:
  "((\<exists>p. parsePRUrl u = Inr p) \<longleftrightarrow>
      (\<exists>own rep ds. pr_url_grammar u own rep ds \<and> 0 < dec_value ds))
   \<and> ((\<nexists>own rep ds. pr_url_grammar u own rep ds) \<longrightarrow>
        parsePRUrl u = Inl (Error (invalid_url_message u)))
   \<and> (\<forall>own rep ds. pr_url_grammar u own rep ds \<and> dec_value ds = 0 \<longrightarrow>
        parsePRUrl u = Inl (Error (invalid_number_message u)))"
proof (intro conjI allI impI)
  show "(\<exists>p. parsePRUrl u = Inr p) \<longleftrightarrow>
      (\<exists>own rep ds. pr_url_grammar u own rep ds \<and> 0 < dec_value ds)"
  proof
    assume "\<exists>p. parsePRUrl u = Inr p"
    then obtain p where p: "parsePRUrl u = Inr p" ..
    show "\<exists>own rep ds. pr_url_grammar u own rep ds \<and> 0 < dec_value ds"
    proof (rule ccontr)
      assume no: "\<not> ?thesis"
      show False
      proof (cases "\<exists>own rep ds. pr_url_grammar u own rep ds")
        case True
        then obtain own rep ds where g: "pr_url_grammar u own rep ds" by blast
        with no have "dec_value ds = 0" by auto
        with parsePRUrl_grammar[OF g] p show False by simp
      next
        case False
        with parsePRUrl_no_grammar p show False by simp
      qed
    qed
  next
    assume "\<exists>own rep ds. pr_url_grammar u own rep ds \<and> 0 < dec_value ds"
    then obtain own rep ds where g: "pr_url_grammar u own rep ds" and "0 < dec_value ds" by blast
    with parsePRUrl_grammar[OF g] show "\<exists>p. parsePRUrl u = Inr p" by simp
  qed
next
  assume "\<nexists>own rep ds. pr_url_grammar u own rep ds"
  then show "parsePRUrl u = Inl (Error (invalid_url_message u))"
    by (rule parsePRUrl_no_grammar)
next
  fix own rep ds
  assume "pr_url_grammar u own rep ds \<and> dec_value ds = 0"
  then show "parsePRUrl u = Inl (Error (invalid_number_message u))"
    using parsePRUrl_grammar[of u own rep ds] by simp
qed

theorem parsePRUrl_accepts_exactly_the_grammar_witness:
  "(\<exists>p. parsePRUrl ''https://github.com/pytorch/pytorch/pull/172511'' = Inr p)
   \<and> parsePRUrl ''https://example.com/owner/repo/pull/12'' =
       Inl (Error (invalid_url_message ''https://example.com/owner/repo/pull/12''))
   \<and> parsePRUrl ''http://www.github.com/o/r/pull/0/'' =
       Inl (Error (invalid_number_message ''http://www.github.com/o/r/pull/0/''))"
proof -
  have g1: "pr_url_grammar ''https://github.com/pytorch/pytorch/pull/172511''
              ''pytorch'' ''pytorch'' ''172511''"
    by (simp add: pr_url_grammar_def not_slash_def is_digit_def)
  have v1: "0 < dec_value ''172511''"
    by (simp add: dec_value_def digit_val_def)
  have g2: "\<nexists>own rep ds. pr_url_grammar ''https://example.com/owner/repo/pull/12'' own rep ds"
    by (auto simp: pr_url_grammar_def)
  have g3: "pr_url_grammar ''http://www.github.com/o/r/pull/0/'' ''o'' ''r'' ''0''"
    by (simp add: pr_url_grammar_def not_slash_def is_digit_def)
  have v3: "dec_value ''0'' = 0"
    by (simp add: dec_value_def digit_val_def)
  from g1 v1 parsePRUrl_accepts_exactly_the_grammar
         [of "''https://github.com/pytorch/pytorch/pull/172511''"]
  have "\<exists>p. parsePRUrl ''https://github.com/pytorch/pytorch/pull/172511'' = Inr p"
    by blast
  moreover from g2 parsePRUrl_accepts_exactly_the_grammar
         [of "''https://example.com/owner/repo/pull/12''"]
  have "parsePRUrl ''https://example.com/owner/repo/pull/12'' =
       Inl (Error (invalid_url_message ''https://example.com/owner/repo/pull/12''))"
    by blast
  moreover from g3 v3 parsePRUrl_accepts_exactly_the_grammar
         [of "''http://www.github.com/o/r/pull/0/''"]
  have "parsePRUrl ''http://www.github.com/o/r/pull/0/'' =
       Inl (Error (invalid_number_message ''http://www.github.com/o/r/pull/0/''))"
    by blast
  ultimately show ?thesis by blast
qed

section \<open>Properties of the orchestrator\<close>

subsection \<open>The loop over the comments\<close>

lemma process_comments_Cons_dry:
  assumes "truthy (dryRun opts)" and "process_comments env opts cs w = (t', w2, x)"
  shows "process_comments env opts (c # cs) w =
     ([LogProcessingCommentBy (user c), LogBodyPreview (take 100 (body c))] @ t', w2, x)"
  using assms by (simp add: Let_def)

lemma process_comments_Cons_fail:
  assumes "\<not> truthy (dryRun opts)" and "call_process env c w = (Inl e, w1)"
  shows "process_comments env opts (c # cs) w =
     ([LogProcessingCommentBy (user c), LogBodyPreview (take 100 (body c)), CallProcess c],
      w1, Some e)"
  using assms by (simp add: Let_def)

lemma process_comments_Cons_ok:
  assumes "\<not> truthy (dryRun opts)" and "call_process env c w = (Inr r, w1)"
    and "process_comments env opts cs w1 = (t', w2, x)"
  shows "process_comments env opts (c # cs) w =
     ([LogProcessingCommentBy (user c), LogBodyPreview (take 100 (body c)), CallProcess c,
       report r] @ t', w2, x)"
  using assms by (simp add: Let_def)

declare process_comments.simps(2) [simp del]

lemma process_comments_dry:
  assumes "truthy (dryRun opts)"
  shows "snd (process_comments env opts cs w) = (w, None) \<and>
     list_all (\<lambda>e. \<not> is_checkout e \<and> \<not> is_agent_call e \<and> \<not> is_fetch e)
       (fst (process_comments env opts cs w))"
proof (induction cs)
  case Nil
  show ?case by simp
next
  case (Cons c cs)
  obtain t' w2 x where p: "process_comments env opts cs w = (t', w2, x)"
    by (cases "process_comments env opts cs w")
  with Cons show ?case
    by (simp add: process_comments_Cons_dry[OF assms p])
qed

lemma process_comments_no_checkout:
  "list_all (\<lambda>e. \<not> is_checkout e \<and> \<not> is_fetch e) (fst (process_comments env opts cs w))"
proof (induction cs arbitrary: w)
  case Nil
  show ?case by simp
next
  case (Cons c cs)
  show ?case
  proof (cases "truthy (dryRun opts)")
    case True
    then show ?thesis using process_comments_dry[OF True, of env "c # cs" w]
      by (simp add: list_all_iff)
  next
    case False
    obtain r w1 where r: "call_process env c w = (r, w1)" by (cases "call_process env c w")
    show ?thesis
    proof (cases r)
      case (Inl e)
      with False r show ?thesis by (simp add: process_comments_Cons_fail)
    next
      case (Inr res)
      obtain t' w2 x where p: "process_comments env opts cs w1 = (t', w2, x)"
        by (cases "process_comments env opts cs w1")
      from Cons[of w1] p have "list_all (\<lambda>e. \<not> is_checkout e \<and> \<not> is_fetch e) t'" by simp
      with False r Inr p show ?thesis
        by (simp add: process_comments_Cons_ok[OF False _ p] report_def
                )
    qed
  qed
qed

lemma process_comments_frame:
  assumes "\<forall>c s. obs (snd (call_process env c s)) = obs s"
  shows "obs (fst (snd (process_comments env opts cs w))) = obs w"
proof (induction cs arbitrary: w)
  case Nil
  show ?case by simp
next
  case (Cons c cs)
  show ?case
  proof (cases "truthy (dryRun opts)")
    case True
    then show ?thesis using process_comments_dry[OF True, of env "c # cs" w]
      by (simp)
  next
    case False
    obtain r w1 where r: "call_process env c w = (r, w1)" by (cases "call_process env c w")
    with assms have w1: "obs w1 = obs w" by (metis snd_conv)
    show ?thesis
    proof (cases r)
      case (Inl e)
      with False r w1 show ?thesis by (simp add: process_comments_Cons_fail)
    next
      case (Inr res)
      obtain t' w2 x where p: "process_comments env opts cs w1 = (t', w2, x)"
        by (cases "process_comments env opts cs w1")
      with Cons[of w1] have "obs w2 = obs w1" by simp
      with False r Inr p w1 show ?thesis
        by (simp add: process_comments_Cons_ok[OF False _ p])
    qed
  qed
qed

lemma process_comments_append:
  assumes "process_comments env opts cs1 w = (t, w1, None)"
    and "process_comments env opts cs2 w1 = (t', w2, x)"
  shows "process_comments env opts (cs1 @ cs2) w = (t @ t', w2, x)"
  using assms
proof (induction cs1 arbitrary: w t)
  case Nil
  then show ?case by simp
next
  case (Cons c cs1)
  show ?case
  proof (cases "truthy (dryRun opts)")
    case True
    obtain ta wa xa where p: "process_comments env opts cs1 w = (ta, wa, xa)"
      by (cases "process_comments env opts cs1 w")
    from Cons.prems(1) have
      "wa = w1" "xa = None"
      "t = [LogProcessingCommentBy (user c), LogBodyPreview (take 100 (body c))] @ ta"
      unfolding process_comments_Cons_dry[OF True p] by simp_all
    with p Cons.IH[of w ta] Cons.prems(2)
    have "process_comments env opts (cs1 @ cs2) w = (ta @ t', w2, x)" by simp
    from process_comments_Cons_dry[OF True this, of c]
    show ?thesis
      using \<open>t = _\<close> by simp
  next
    case False
    obtain r wa where r: "call_process env c w = (r, wa)" by (cases "call_process env c w")
    show ?thesis
    proof (cases r)
      case (Inl e)
      with Cons.prems(1) False r show ?thesis by (simp add: process_comments_Cons_fail)
    next
      case (Inr res)
      obtain ta wb xa where p: "process_comments env opts cs1 wa = (ta, wb, xa)"
        by (cases "process_comments env opts cs1 wa")
      from r Inr have r': "call_process env c w = (Inr res, wa)" by simp
      from Cons.prems(1) have
        "wb = w1" "xa = None"
        "t = [LogProcessingCommentBy (user c), LogBodyPreview (take 100 (body c)),
              CallProcess c, report res] @ ta"
        unfolding process_comments_Cons_ok[OF False r' p] by simp_all
      with p Cons.IH[of wa ta] Cons.prems(2)
      have "process_comments env opts (cs1 @ cs2) wa = (ta @ t', w2, x)" by simp
      from process_comments_Cons_ok[OF False r' this]
      show ?thesis
        using \<open>t = _\<close> by simp
    qed
  qed
qed

lemma process_comments_failure:
  assumes "\<not> truthy (dryRun opts)"
    and "process_comments env opts cs1 w = (t, w1, None)"
    and "call_process env c w1 = (Inl e, w2)"
  shows "process_comments env opts (cs1 @ c # cs2) w =
           (t @ [LogProcessingCommentBy (user c), LogBodyPreview (take 100 (body c)),
                 CallProcess c], w2, Some e)"
  by (rule process_comments_append[OF assms(2) process_comments_Cons_fail[OF assms(1,3)]])

subsection \<open>The steps of the action\<close>

lemma checkout_step_dry:
  "truthy (dryRun opts) \<Longrightarrow> checkout_step env opts n d w = ([], w, None)"
  by (simp add: checkout_step_def)

lemma checkout_step_fail:
  "\<not> truthy (dryRun opts) \<Longrightarrow> call_checkout env n d w = (Inl e, w1) \<Longrightarrow>
     checkout_step env opts n d w = ([CallCheckout n d], w1, Some e)"
  by (simp add: checkout_step_def)


lemma try_body_parse_fail:
  "parsePRUrl prUrl = Inl e \<Longrightarrow>
     try_body env prUrl opts w =
       ([LogProcessingPR prUrl, LogRepositoryDirectory (repo_dir env opts)], w, Some e)"
  by (simp add: try_body_def)

lemma try_body_checkout_fail:
  "parsePRUrl prUrl = Inr p \<Longrightarrow>
   checkout_step env opts (prNumber p) (repo_dir env opts) w = (t2, w1, Some e) \<Longrightarrow>
     try_body env prUrl opts w =
       ([LogProcessingPR prUrl, LogRepositoryDirectory (repo_dir env opts),
         LogParsed (owner p) (repo p) (prNumber p)] @ t2, w1, Some e)"
  by (simp add: try_body_def)

lemma try_body_fetch_fail:
  "parsePRUrl prUrl = Inr p \<Longrightarrow>
   checkout_step env opts (prNumber p) (repo_dir env opts) w = (t2, w1, None) \<Longrightarrow>
   call_fetch env (owner p) (repo p) (prNumber p) w1 = (Inl e, w2) \<Longrightarrow>
     try_body env prUrl opts w =
       ([LogProcessingPR prUrl, LogRepositoryDirectory (repo_dir env opts),
         LogParsed (owner p) (repo p) (prNumber p)] @ t2 @
        [CallFetch (owner p) (repo p) (prNumber p)], w2, Some e)"
  by (simp add: try_body_def)

lemma try_body_loop:
  "parsePRUrl prUrl = Inr p \<Longrightarrow>
   checkout_step env opts (prNumber p) (repo_dir env opts) w = (t2, w1, None) \<Longrightarrow>
   call_fetch env (owner p) (repo p) (prNumber p) w1 = (Inr cs, w2) \<Longrightarrow>
   process_comments env opts cs w2 = (t4, w3, x) \<Longrightarrow>
     try_body env prUrl opts w =
       ([LogProcessingPR prUrl, LogRepositoryDirectory (repo_dir env opts),
         LogParsed (owner p) (repo p) (prNumber p)] @ t2 @
        [CallFetch (owner p) (repo p) (prNumber p), LogFound (length cs)] @ t4 @
        (case x of None \<Rightarrow> [LogDone] | Some e \<Rightarrow> []), w3, x)"
  by (cases x) (simp_all add: try_body_def)

lemma action_raised:
  "try_body env prUrl opts w = (t, w', Some e) \<Longrightarrow>
     action env prUrl opts w = (t @ [ConsoleError (error_text e), ProcessExit 1], w')"
  by (simp add: action_def)

lemma action_returned:
  "try_body env prUrl opts w = (t, w', None) \<Longrightarrow> action env prUrl opts w = (t, w')"
  by (simp add: action_def)

lemma exit_code_failure [simp]: "exit_code (t @ [ConsoleError m, ProcessExit n]) = n"
  by (simp add: exit_code_def)

subsection \<open>The ways a run can go\<close>

text \<open>Every run fails in the parser, in the checkout or in the fetch, or reaches the loop.\<close>

lemma try_body_cases:
  fixes env :: "'w env"
  obtains
    (parse_fail) e where
      "parsePRUrl prUrl = Inl e"
      "try_body env prUrl opts w =
         ([LogProcessingPR prUrl, LogRepositoryDirectory (repo_dir env opts)], w, Some e)"
  | (checkout_fail) p t2 w1 e where
      "parsePRUrl prUrl = Inr p"
      "checkout_step env opts (prNumber p) (repo_dir env opts) w = (t2, w1, Some e)"
      "try_body env prUrl opts w =
         ([LogProcessingPR prUrl, LogRepositoryDirectory (repo_dir env opts),
           LogParsed (owner p) (repo p) (prNumber p)] @ t2, w1, Some e)"
  | (fetch_fail) p t2 w1 e w2 where
      "parsePRUrl prUrl = Inr p"
      "checkout_step env opts (prNumber p) (repo_dir env opts) w = (t2, w1, None)"
      "call_fetch env (owner p) (repo p) (prNumber p) w1 = (Inl e, w2)"
      "try_body env prUrl opts w =
         ([LogProcessingPR prUrl, LogRepositoryDirectory (repo_dir env opts),
           LogParsed (owner p) (repo p) (prNumber p)] @ t2 @
          [CallFetch (owner p) (repo p) (prNumber p)], w2, Some e)"
  | (loop) p t2 w1 cs w2 t4 w3 x where
      "parsePRUrl prUrl = Inr p"
      "checkout_step env opts (prNumber p) (repo_dir env opts) w = (t2, w1, None)"
      "call_fetch env (owner p) (repo p) (prNumber p) w1 = (Inr cs, w2)"
      "process_comments env opts cs w2 = (t4, w3, x)"
      "try_body env prUrl opts w =
         ([LogProcessingPR prUrl, LogRepositoryDirectory (repo_dir env opts),
           LogParsed (owner p) (repo p) (prNumber p)] @ t2 @
          [CallFetch (owner p) (repo p) (prNumber p), LogFound (length cs)] @ t4 @
          (case x of None \<Rightarrow> [LogDone] | Some e \<Rightarrow> []), w3, x)"
proof (cases "parsePRUrl prUrl")
  case (Inl e)
  from parse_fail[OF Inl try_body_parse_fail[OF Inl]] show ?thesis .
next
  case (Inr p)
  obtain t2 w1 y where c: "checkout_step env opts (prNumber p) (repo_dir env opts) w = (t2, w1, y)"
    by (cases "checkout_step env opts (prNumber p) (repo_dir env opts) w")
  show ?thesis
  proof (cases y)
    case (Some e)
    with c have c': "checkout_step env opts (prNumber p) (repo_dir env opts) w = (t2, w1, Some e)"
      by simp
    from checkout_fail[OF Inr c' try_body_checkout_fail[OF Inr c']] show ?thesis .
  next
    case None
    with c have c': "checkout_step env opts (prNumber p) (repo_dir env opts) w = (t2, w1, None)"
      by simp
    obtain r w2 where f: "call_fetch env (owner p) (repo p) (prNumber p) w1 = (r, w2)"
      by (cases "call_fetch env (owner p) (repo p) (prNumber p) w1")
    show ?thesis
    proof (cases r)
      case (Inl e)
      with f have f': "call_fetch env (owner p) (repo p) (prNumber p) w1 = (Inl e, w2)" by simp
      from fetch_fail[OF \<open>parsePRUrl prUrl = Inr p\<close> c' f'
          try_body_fetch_fail[OF \<open>parsePRUrl prUrl = Inr p\<close> c' f']]
      show ?thesis .
    next
      case (Inr cs)
      with f have f': "call_fetch env (owner p) (repo p) (prNumber p) w1 = (Inr cs, w2)" by simp
      obtain t4 w3 x where l: "process_comments env opts cs w2 = (t4, w3, x)"
        by (cases "process_comments env opts cs w2")
      from loop[OF \<open>parsePRUrl prUrl = Inr p\<close> c' f' l
          try_body_loop[OF \<open>parsePRUrl prUrl = Inr p\<close> c' f' l]]
      show ?thesis .
    qed
  qed
qed

subsection \<open>What a run leaves unchanged\<close>

lemma checkout_step_frame:
  assumes "\<forall>n d s. obs (snd (call_checkout env n d s)) = obs s"
  shows "obs (fst (snd (checkout_step env opts n d w))) = obs w"
proof (cases "truthy (dryRun opts)")
  case True
  then show ?thesis by (simp add: checkout_step_dry)
next
  case False
  obtain r w1 where c: "call_checkout env n d w = (r, w1)" by (cases "call_checkout env n d w")
  with assms have "obs w1 = obs w" by (metis snd_conv)
  with False c show ?thesis by (cases r) (simp_all add: checkout_step_def)
qed

lemma snd_action: "snd (action env prUrl opts w) = fst (snd (try_body env prUrl opts w))"
  by (simp add: action_def split: prod.splits option.splits)

lemma try_body_frame:
  assumes c: "\<forall>n d s. obs (snd (call_checkout env n d s)) = obs s"
    and f: "\<forall>ow rp n s. obs (snd (call_fetch env ow rp n s)) = obs s"
    and a: "\<forall>c s. obs (snd (call_process env c s)) = obs s"
  shows "obs (fst (snd (try_body env prUrl opts w))) = obs w"
proof (cases rule: try_body_cases[of prUrl env opts w])
  case (parse_fail e)
  then show ?thesis by simp
next
  case (checkout_fail p t2 w1 e)
  with checkout_step_frame[OF c, of opts "prNumber p" "repo_dir env opts" w]
  show ?thesis by simp
next
  case (fetch_fail p t2 w1 e w2)
  from fetch_fail(3) f have "obs w2 = obs w1" by (metis snd_conv)
  with fetch_fail checkout_step_frame[OF c, of opts "prNumber p" "repo_dir env opts" w]
  show ?thesis by simp
next
  case (loop p t2 w1 cs w2 t4 w3 x)
  from loop(3) f have "obs w2 = obs w1" by (metis snd_conv)
  moreover from process_comments_frame[OF a, of opts cs w2] loop(4) have "obs w3 = obs w2"
    by simp
  ultimately show ?thesis
    using loop checkout_step_frame[OF c, of opts "prNumber p" "repo_dir env opts" w]
    by simp
qed

subsection \<open>The error path and the exit code\<close>

lemma exit_code_last:
  "t \<noteq> [] \<Longrightarrow> exit_code t = (case last t of ProcessExit n \<Rightarrow> n | _ \<Rightarrow> 0)"
  by (cases t rule: rev_cases) (simp_all add: exit_code_def)

lemma ends_in_failureI: "ends_in_failure (t @ [ConsoleError m, ProcessExit 1]) m"
  by (simp add: ends_in_failure_def exit_code_last)

text \<open>
  What the handler prints: \<open>error.message\<close> of an \<open>Error\<close>, \<open>String(error)\<close> of anything
  else.
\<close>

lemma action_ends_in_failure:
  assumes "try_body env prUrl opts w = (t, w', Some e)"
    and "e = Error m \<or> e = NonError m"
  shows "ends_in_failure (fst (action env prUrl opts w)) m"
proof -
  from assms(2) have "error_text e = m" by auto
  with action_raised[OF assms(1)]
  have "fst (action env prUrl opts w) = t @ [ConsoleError m, ProcessExit 1]" by simp
  then show ?thesis by (simp only: ends_in_failureI)
qed

lemma exit_code_action:
  "exit_code (fst (action env prUrl opts w)) =
     (case snd (snd (try_body env prUrl opts w)) of None \<Rightarrow> 0 | Some e \<Rightarrow> 1)"
proof (cases rule: try_body_cases[of prUrl env opts w])
  case (parse_fail e)
  then show ?thesis by (simp add: action_raised exit_code_last)
next
  case (checkout_fail p t2 w1 e)
  then show ?thesis by (simp add: action_raised exit_code_last)
next
  case (fetch_fail p t2 w1 e w2)
  then show ?thesis by (simp add: action_raised exit_code_last)
next
  case (loop p t2 w1 cs w2 t4 w3 x)
  show ?thesis
  proof (cases x)
    case None
    with loop(5) have
      "try_body env prUrl opts w =
         (([LogProcessingPR prUrl, LogRepositoryDirectory (repo_dir env opts),
           LogParsed (owner p) (repo p) (prNumber p)] @ t2 @
          [CallFetch (owner p) (repo p) (prNumber p), LogFound (length cs)] @ t4) @ [LogDone],
          w3, None)"
      by simp
    then show ?thesis
      by (simp add: action_returned exit_code_last)
  next
    case (Some e)
    with loop show ?thesis by (simp add: action_raised exit_code_last)
  qed
qed

subsection \<open>Dry runs and the checkout\<close>

lemma action_dry:
  assumes dry: "truthy (dryRun opts)"
  shows "list_all (\<lambda>e. \<not> is_checkout e \<and> \<not> is_agent_call e) (fst (action env prUrl opts w))"
    and "snd (action env prUrl opts w) =
        (case parsePRUrl prUrl of
           Inl e \<Rightarrow> w
         | Inr p \<Rightarrow> snd (call_fetch env (owner p) (repo p) (prNumber p) w))"
proof -
  have "list_all (\<lambda>e. \<not> is_checkout e \<and> \<not> is_agent_call e) (fst (action env prUrl opts w))
    \<and> snd (action env prUrl opts w) =
        (case parsePRUrl prUrl of
           Inl e \<Rightarrow> w
         | Inr p \<Rightarrow> snd (call_fetch env (owner p) (repo p) (prNumber p) w))"
  proof (cases rule: try_body_cases[of prUrl env opts w])
    case (parse_fail e)
    then show ?thesis by (simp add: action_raised)
  next
    case (checkout_fail p t2 w1 e)
    with checkout_step_dry[OF dry, of env "prNumber p" "repo_dir env opts" w]
    show ?thesis by simp
  next
    case (fetch_fail p t2 w1 e w2)
    with checkout_step_dry[OF dry, of env "prNumber p" "repo_dir env opts" w]
    show ?thesis by (simp add: action_raised)
  next
    case (loop p t2 w1 cs w2 t4 w3 x)
    from loop(2) checkout_step_dry[OF dry, of env "prNumber p" "repo_dir env opts" w]
    have t2: "t2 = []" "w1 = w" by simp_all
    from process_comments_dry[OF dry, of env cs w2] loop(4)
    have l: "w3 = w2" "x = None"
      "list_all (\<lambda>e. \<not> is_checkout e \<and> \<not> is_agent_call e \<and> \<not> is_fetch e) t4"
      by simp_all
    from l(3) have "list_all (\<lambda>e. \<not> is_checkout e \<and> \<not> is_agent_call e) t4"
      by (simp add: list_all_iff)
    with loop t2 l(1,2) show ?thesis by (simp add: action_returned)
  qed
  then show "list_all (\<lambda>e. \<not> is_checkout e \<and> \<not> is_agent_call e) (fst (action env prUrl opts w))"
    and "snd (action env prUrl opts w) =
        (case parsePRUrl prUrl of
           Inl e \<Rightarrow> w
         | Inr p \<Rightarrow> snd (call_fetch env (owner p) (repo p) (prNumber p) w))"
    by simp_all
qed

lemma checkout_step_calls:
  assumes "\<not> truthy (dryRun opts)" and "checkout_step env opts n d w = (t2, w1, y)"
  shows "list_ex is_checkout t2"
proof -
  obtain r wa where c: "call_checkout env n d w = (r, wa)" by (cases "call_checkout env n d w")
  with assms show ?thesis by (cases r) (auto simp: checkout_step_def)
qed

lemma action_calls_checkout:
  assumes p: "parsePRUrl prUrl = Inr p"
  shows "list_ex is_checkout (fst (action env prUrl opts w)) \<longleftrightarrow> \<not> truthy (dryRun opts)"
proof (cases "truthy (dryRun opts)")
  case True
  from action_dry(1)[OF True, of env prUrl w] True show ?thesis
    by (auto simp: list_all_iff list_ex_iff)
next
  case False
  have "list_ex is_checkout (fst (action env prUrl opts w))"
  proof (cases rule: try_body_cases[of prUrl env opts w])
    case (parse_fail e)
    with p show ?thesis by simp
  next
    case (checkout_fail p t2 w1 e)
    from checkout_step_calls[OF False checkout_fail(2)] checkout_fail(3)
    show ?thesis by (simp add: action_raised)
  next
    case (fetch_fail p t2 w1 e w2)
    from checkout_step_calls[OF False fetch_fail(2)] fetch_fail(4)
    show ?thesis by (simp add: action_raised)
  next
    case (loop p t2 w1 cs w2 t4 w3 x)
    from checkout_step_calls[OF False loop(2)] loop(5)
    show ?thesis by (cases x) (simp_all add: action_raised action_returned)
  qed
  with False show ?thesis by simp
qed

subsection \<open>Runs with the repository's collaborators\<close>

lemma action_repository_env:
  fixes w :: "'w" and dir :: string
  defines "E \<equiv> (repository_env dir :: 'w env)"
  shows "action E prUrl opts w =
     (case parsePRUrl prUrl of
        Inl e \<Rightarrow>
          ([LogProcessingPR prUrl, LogRepositoryDirectory (repo_dir E opts),
            ConsoleError (error_text e), ProcessExit 1], w)
      | Inr p \<Rightarrow>
          ([LogProcessingPR prUrl, LogRepositoryDirectory (repo_dir E opts),
            LogParsed (owner p) (repo p) (prNumber p),
            (if truthy (dryRun opts) then CallFetch (owner p) (repo p) (prNumber p)
             else CallCheckout (prNumber p) (repo_dir E opts)),
            ConsoleError ''Not implemented'', ProcessExit 1], w))"
proof (cases "parsePRUrl prUrl")
  case (Inl e)
  from action_raised[OF try_body_parse_fail[OF Inl, of E opts w]] Inl
  show ?thesis by simp
next
  case (Inr p)
  show ?thesis
  proof (cases "truthy (dryRun opts)")
    case True
    have f: "call_fetch E (owner p) (repo p) (prNumber p) w =
               (Inl (Error ''Not implemented''), w)"
      by (simp add: E_def repository_env_def fetchPRComments_def)
    from action_raised[OF try_body_fetch_fail[OF Inr checkout_step_dry[OF True] f]] Inr True
    show ?thesis by simp
  next
    case False
    have c: "call_checkout E (prNumber p)
               (repo_dir E opts) w = (Inl (Error ''Not implemented''), w)"
      by (simp add: E_def repository_env_def checkoutPRBranch_def)
    from action_raised[OF try_body_checkout_fail[OF Inr checkout_step_fail[OF False c]]] Inr False
    show ?thesis by simp
  qed
qed

subsection \<open>Decimal digits\<close>

lemma dec_value_snoc: "dec_value (ds @ [d]) = 10 * dec_value ds + digit_val d"
  by (simp add: dec_value_def)

lemma is_digit_cases:
  assumes "is_digit d"
  shows "digit_val d < 10" and "digit_char (digit_val d) = d"
    and "digit_val d = 0 \<longleftrightarrow> d = CHR ''0''"
  using assms by (auto simp: is_digit_def digit_val_def digit_char_def char_of_def bit_iff_odd)

lemma dec_value_zero:
  "list_all is_digit ds \<Longrightarrow> dec_value ds = 0 \<longleftrightarrow> (\<forall>c \<in> set ds. c = CHR ''0'')"
proof (induction ds rule: rev_induct)
  case Nil
  show ?case by (simp add: dec_value_def)
next
  case (snoc d ds)
  then have "is_digit d" "list_all is_digit ds" by simp_all
  with snoc.IH is_digit_cases(3)[of d] show ?case
    by (auto simp: dec_value_snoc)
qed

lemma show_nat_digit: "n < 10 \<Longrightarrow> show_nat n = [digit_char n]"
  by (simp add: show_nat.simps[of n])

lemma show_nat_step:
  "0 < v \<Longrightarrow> d < 10 \<Longrightarrow> show_nat (10 * v + d) = show_nat v @ [digit_char d]"
  by (subst show_nat.simps) simp

lemma show_nat_dec_value:
  assumes "list_all is_digit ds" and "0 < dec_value ds"
  shows "show_nat (dec_value ds) = dropWhile (\<lambda>c. c = CHR ''0'') ds"
  using assms
proof (induction ds rule: rev_induct)
  case Nil
  then show ?case by (simp add: dec_value_def)
next
  case (snoc d ds)
  then have d: "is_digit d" and ds: "list_all is_digit ds" by simp_all
  note dd = is_digit_cases[OF d]
  show ?case
  proof (cases "dec_value ds = 0")
    case True
    with dec_value_zero[OF ds] have z: "\<forall>c \<in> set ds. c = CHR ''0''" by simp
    from True snoc.prems(2) have "0 < digit_val d" by (simp add: dec_value_snoc)
    with dd(3) have "d \<noteq> CHR ''0''" by simp
    with z True dd show ?thesis
      by (simp add: dec_value_snoc show_nat_digit dropWhile_append2)
  next
    case False
    with dec_value_zero[OF ds] obtain c where c: "c \<in> set ds" "c \<noteq> CHR ''0''" by auto
    from False snoc.IH[OF ds] have ih: "show_nat (dec_value ds) = dropWhile (\<lambda>c. c = CHR ''0'') ds"
      by simp
    from c have "dropWhile (\<lambda>c. c = CHR ''0'') (ds @ [d]) = dropWhile (\<lambda>c. c = CHR ''0'') ds @ [d]"
      by (simp add: dropWhile_append1)
    with False ih dd show ?thesis
      by (simp add: dec_value_snoc show_nat_step)
  qed
qed

lemma big_value: "dec_value ''9007199254740993'' = 9007199254740993"
  by (simp add: dec_value_def digit_val_def)

lemma big_round: "round_to_double 9007199254740993 = Finite 9007199254740992"
  by (simp add: round_to_double_def bit_length.simps Let_def)

subsection \<open>Concrete runs\<close>

lemma parse_pr_12:
  "parsePRUrl pr_12 = Inr \<lparr>owner = ''owner'', repo = ''repo'', prNumber = Finite 12\<rparr>"
proof -
  have g: "pr_url_grammar pr_12 ''owner'' ''repo'' ''12''"
    by (simp add: pr_12_def pr_url_grammar_def not_slash_def is_digit_def)
  have v: "dec_value ''12'' = 12" by (simp add: dec_value_def digit_val_def)
  from parsePRUrl_grammar[OF g] v show ?thesis by (simp add: round_to_double_exact)
qed

lemmas run_defs =
  action_def try_body_def checkout_step_def repo_dir_def parse_pr_12 Let_def
  process_comments.simps(2) report_def
  working_env_def failing_agent_env_def guarded_env_def text_throwing_env_def
  repository_env_def
  checkout_ok_def fetch_two_def agent_commits_def checkout_throws_text_def
  checkout_clean_only_def checkoutPRBranch_def fetchPRComments_def
  processCommentWithClaude_def plain_run_def dry_run_def clean_tree_def dirty_tree_def

section \<open>The claims\<close>

text \<open>
  Claim C3 (as amended). For every URL of the grammar with a positive number, \<open>parsePRUrl\<close>
  returns the owner and the repository exactly, and as number the double nearest to the
  number the digits denote. When that number is below \<open>2^53\<close> the returned number is
  exact, and formatting the parsed reference gives the normalized form of the URL
  (\<open>https\<close>, no \<open>www.\<close>, no leading zeros, no trailing slash). On every other string
  \<open>parsePRUrl\<close> fails.
\<close>

theorem parse_then_format_is_the_normalized_form:
  "(pr_url_grammar u own rep ds \<and> 0 < dec_value ds \<longrightarrow>
      parsePRUrl u =
        Inr \<lparr>owner = own, repo = rep, prNumber = round_to_double (dec_value ds)\<rparr>)
   \<and> (pr_url_grammar u own rep ds \<and> 0 < dec_value ds \<and> dec_value ds < 2 ^ 53 \<longrightarrow>
        parsePRUrl u = Inr \<lparr>owner = own, repo = rep, prNumber = Finite (dec_value ds)\<rparr>
        \<and> format_url \<lparr>owner = own, repo = rep, prNumber = Finite (dec_value ds)\<rparr> =
            normalizedForm own rep ds)
   \<and> ((\<nexists>own rep ds. pr_url_grammar u own rep ds \<and> 0 < dec_value ds) \<longrightarrow>
        (\<exists>e. parsePRUrl u = Inl e))"
proof (intro conjI impI)
  assume "pr_url_grammar u own rep ds \<and> 0 < dec_value ds"
  then show "parsePRUrl u =
        Inr \<lparr>owner = own, repo = rep, prNumber = round_to_double (dec_value ds)\<rparr>"
    using parsePRUrl_grammar[of u own rep ds] by simp
next
  assume a: "pr_url_grammar u own rep ds \<and> 0 < dec_value ds \<and> dec_value ds < 2 ^ 53"
  then show "parsePRUrl u = Inr \<lparr>owner = own, repo = rep, prNumber = Finite (dec_value ds)\<rparr>"
    using parsePRUrl_grammar[of u own rep ds] by (simp add: round_to_double_exact)
  from a have "list_all is_digit ds" unfolding pr_url_grammar_def by blast
  with a show "format_url \<lparr>owner = own, repo = rep, prNumber = Finite (dec_value ds)\<rparr> =
            normalizedForm own rep ds"
    by (simp add: format_url_def normalizedForm_def show_nat_dec_value)
next
  assume no: "\<nexists>own rep ds. pr_url_grammar u own rep ds \<and> 0 < dec_value ds"
  show "\<exists>e. parsePRUrl u = Inl e"
  proof (cases "\<exists>own rep ds. pr_url_grammar u own rep ds")
    case True
    then obtain own rep ds where g: "pr_url_grammar u own rep ds" by blast
    with no have "dec_value ds = 0" by auto
    with parsePRUrl_grammar[OF g] show ?thesis by simp
  next
    case False
    with parsePRUrl_no_grammar show ?thesis by blast
  qed
qed

theorem parse_then_format_is_the_normalized_form_witness:
  "parsePRUrl ''http://www.github.com/owner/repo/pull/0012/'' =
     Inr \<lparr>owner = ''owner'', repo = ''repo'', prNumber = Finite 12\<rparr>
   \<and> format_url \<lparr>owner = ''owner'', repo = ''repo'', prNumber = Finite 12\<rparr> =
       ''https://github.com/owner/repo/pull/12''
   \<and> (\<exists>e. parsePRUrl ''https://example.com/owner/repo/pull/12'' = Inl e)"
proof -
  have g: "pr_url_grammar ''http://www.github.com/owner/repo/pull/0012/''
             ''owner'' ''repo'' ''0012''"
    by (simp add: pr_url_grammar_def not_slash_def is_digit_def)
  have v: "dec_value ''0012'' = 12" by (simp add: dec_value_def digit_val_def)
  have n: "normalizedForm ''owner'' ''repo'' ''0012'' = ''https://github.com/owner/repo/pull/12''"
    by (simp add: normalizedForm_def)
  have no: "\<nexists>own rep ds.
      pr_url_grammar ''https://example.com/owner/repo/pull/12'' own rep ds \<and> 0 < dec_value ds"
    by (auto simp: pr_url_grammar_def)
  from g v n parse_then_format_is_the_normalized_form
         [of "''http://www.github.com/owner/repo/pull/0012/''" "''owner''" "''repo''"
             "''0012''"]
  have "parsePRUrl ''http://www.github.com/owner/repo/pull/0012/'' =
     Inr \<lparr>owner = ''owner'', repo = ''repo'', prNumber = Finite 12\<rparr>
   \<and> format_url \<lparr>owner = ''owner'', repo = ''repo'', prNumber = Finite 12\<rparr> =
       ''https://github.com/owner/repo/pull/12''"
    by (simp add: round_to_double_exact)
  moreover from no parse_then_format_is_the_normalized_form
         [of "''https://example.com/owner/repo/pull/12''"]
  have "\<exists>e. parsePRUrl ''https://example.com/owner/repo/pull/12'' = Inl e"
    by blast
  ultimately show ?thesis by blast
qed

text \<open>
  Against claim C3 as stated: the number of this URL of the grammar is \<open>2^53 + 1\<close>, and
  the parsed reference holds \<open>2^53\<close>, the nearest double: not the exact number of the URL.
\<close>

theorem large_pr_number_is_rounded:
  "parsePRUrl ''https://github.com/o/r/pull/9007199254740993'' =
     Inr \<lparr>owner = ''o'', repo = ''r'', prNumber = Finite 9007199254740992\<rparr>
   \<and> dec_value ''9007199254740993'' = 9007199254740993"
proof -
  have g: "pr_url_grammar ''https://github.com/o/r/pull/9007199254740993'' ''o'' ''r''
             ''9007199254740993''"
    by (simp add: pr_url_grammar_def not_slash_def is_digit_def)
  from parsePRUrl_grammar[OF g] big_value big_round show ?thesis by simp
qed

text \<open>
  Claim C4. In a run with \<open>--dry-run\<close> the action calls neither
  \<open>checkoutPRBranch\<close> nor \<open>processCommentWithClaude\<close>, whatever these would do: the
  only collaborator it calls is the fetch of the comments, so the world after the run
  is the one the fetch leaves (the one before the run when the URL does not parse), and
  the head commit of the working directory is the one before the run as long as
  fetching comments does not move it.
\<close>

theorem dry_run_calls_neither_agent_nor_checkout:
  assumes dry: "truthy (dryRun opts)"
  shows "list_all (\<lambda>e. \<not> is_checkout e \<and> \<not> is_agent_call e) (fst (action env prUrl opts w))
    \<and> snd (action env prUrl opts w) =
        (case parsePRUrl prUrl of
           Inl e \<Rightarrow> w
         | Inr p \<Rightarrow> snd (call_fetch env (owner p) (repo p) (prNumber p) w))
    \<and> ((\<forall>ow rp n s. head_of (snd (call_fetch env ow rp n s)) = head_of s) \<longrightarrow>
          head_of (snd (action env prUrl opts w)) = head_of w)"
proof (intro conjI impI)
  show "list_all (\<lambda>e. \<not> is_checkout e \<and> \<not> is_agent_call e) (fst (action env prUrl opts w))"
    by (rule action_dry(1)[OF dry])
  show w': "snd (action env prUrl opts w) =
        (case parsePRUrl prUrl of
           Inl e \<Rightarrow> w
         | Inr p \<Rightarrow> snd (call_fetch env (owner p) (repo p) (prNumber p) w))"
    by (rule action_dry(2)[OF dry])
  assume "\<forall>ow rp n s. head_of (snd (call_fetch env ow rp n s)) = head_of s"
  with w' show "head_of (snd (action env prUrl opts w)) = head_of w"
    by (simp split: sum.splits)
qed

theorem dry_run_calls_neither_agent_nor_checkout_witness:
  "truthy (dryRun dry_run)
   \<and> list_all (\<lambda>e. \<not> is_checkout e \<and> \<not> is_agent_call e)
        (fst (action working_env pr_12 dry_run dirty_tree))
   \<and> head_commit (snd (action working_env pr_12 dry_run dirty_tree)) = ''base''
   \<and> head_commit (snd (action working_env pr_12 plain_run dirty_tree)) = ''fix-for-bob''"
proof -
  have d: "truthy (dryRun dry_run)" by (simp add: dry_run_def)
  have f: "\<forall>ow rp n s. head_commit (snd (call_fetch working_env ow rp n s)) = head_commit s"
    by (simp add: working_env_def fetch_two_def)
  have b: "head_commit dirty_tree = ''base''" by (simp add: dirty_tree_def)
  have p: "head_commit (snd (action working_env pr_12 plain_run dirty_tree)) = ''fix-for-bob''"
    by (simp add: run_defs comment_a_def comment_b_def)
  note run = dry_run_calls_neither_agent_nor_checkout
                [OF d, of working_env pr_12 dirty_tree head_commit]
  from run have c: "list_all (\<lambda>e. \<not> is_checkout e \<and> \<not> is_agent_call e)
        (fst (action working_env pr_12 dry_run dirty_tree))"
    by (rule conjunct1)
  from run f have "head_commit (snd (action working_env pr_12 dry_run dirty_tree)) =
      head_commit dirty_tree"
    by blast
  with b have "head_commit (snd (action working_env pr_12 dry_run dirty_tree)) = ''base''"
    by simp
  with d c p show ?thesis by blast
qed




text \<open>
  Claim C6 (as amended). \<open>fetchPRComments\<close> returns no sequence of comments: for every
  owner, repository and PR number it throws \<open>Error("Not implemented")\<close> and leaves the
  world as it was, the same on every call. So no run of the program gets a comment
  list: no run prints the number of comments found or calls the agent, and every run
  exits with code 1.
\<close>

theorem fetchPRComments_returns_no_comments:
  "fetchPRComments own rep n w = (Inl (Error ''Not implemented''), w)
   \<and> \<not> list_ex is_found (fst (action (repository_env dir) prUrl opts w))
   \<and> \<not> list_ex is_agent_call (fst (action (repository_env dir) prUrl opts w))
   \<and> exit_code (fst (action (repository_env dir) prUrl opts w)) = 1"
  by (simp add: fetchPRComments_def action_repository_env exit_code_last split: sum.splits)

text \<open>
  Against claim C6 as stated: the fetch for a PR returns no comments in any order; it
  throws.
\<close>

theorem fetchPRComments_throws:
  "fetchPRComments ''owner'' ''repo'' (Finite 12) clean_tree =
     (Inl (Error ''Not implemented''), clean_tree)"
  by (simp add: fetchPRComments_def)

text \<open>
  Claim C7. The action has no operation on a remote of its own: the world changes only
  through the three collaborators it calls. Whatever part of the world (such as the
  head of the remote branch) each of them leaves as it was, every run leaves as it was,
  on the paths that end normally and on those that end with an error alike. With the
  collaborators the repository has, a run changes nothing at all.
\<close>

theorem run_changes_only_through_its_collaborators:
  "((\<forall>n d s. obs (snd (call_checkout env n d s)) = obs s) \<and>
    (\<forall>ow rp n s. obs (snd (call_fetch env ow rp n s)) = obs s) \<and>
    (\<forall>c s. obs (snd (call_process env c s)) = obs s) \<longrightarrow>
      obs (snd (action env prUrl opts w)) = obs w)
   \<and> snd (action (repository_env dir) prUrl opts w') = w'"
proof
  show "(\<forall>n d s. obs (snd (call_checkout env n d s)) = obs s) \<and>
    (\<forall>ow rp n s. obs (snd (call_fetch env ow rp n s)) = obs s) \<and>
    (\<forall>c s. obs (snd (call_process env c s)) = obs s) \<longrightarrow>
      obs (snd (action env prUrl opts w)) = obs w"
    using try_body_frame[of obs env prUrl opts w] by (simp add: snd_action)
  have "(\<lambda>s. s) (fst (snd (try_body (repository_env dir) prUrl opts w'))) = (\<lambda>s. s) w'"
    by (rule try_body_frame)
       (simp_all add: repository_env_def checkoutPRBranch_def fetchPRComments_def
          processCommentWithClaude_def)
  then show "snd (action (repository_env dir) prUrl opts w') = w'"
    by (simp add: snd_action)
qed

theorem run_changes_only_through_its_collaborators_witness:
  "remote_head (snd (action working_env pr_12 plain_run clean_tree)) = remote_head clean_tree
   \<and> remote_head (snd (action failing_agent_env pr_12 plain_run clean_tree)) =
       remote_head clean_tree
   \<and> head_commit (snd (action working_env pr_12 plain_run clean_tree)) \<noteq>
       head_commit clean_tree"
proof -
  have c1: "\<forall>n d s. remote_head (snd (call_checkout working_env n d s)) = remote_head s"
    by (simp add: working_env_def checkout_ok_def)
  have f1: "\<forall>ow rp n s. remote_head (snd (call_fetch working_env ow rp n s)) = remote_head s"
    by (simp add: working_env_def fetch_two_def)
  have a1: "\<forall>c s. remote_head (snd (call_process working_env c s)) = remote_head s"
    by (simp add: working_env_def agent_commits_def)
  have c2: "\<forall>n d s. remote_head (snd (call_checkout failing_agent_env n d s)) = remote_head s"
    by (simp add: failing_agent_env_def working_env_def checkout_ok_def)
  have f2: "\<forall>ow rp n s. remote_head (snd (call_fetch failing_agent_env ow rp n s)) =
              remote_head s"
    by (simp add: failing_agent_env_def working_env_def fetch_two_def)
  have a2: "\<forall>c s. remote_head (snd (call_process failing_agent_env c s)) = remote_head s"
    by (simp add: failing_agent_env_def working_env_def processCommentWithClaude_def)
  have h: "head_commit (snd (action working_env pr_12 plain_run clean_tree)) \<noteq>
       head_commit clean_tree"
    by (simp add: run_defs comment_a_def comment_b_def)
  note r1 = run_changes_only_through_its_collaborators
              [of remote_head working_env pr_12 plain_run clean_tree, THEN conjunct1]
  note r2 = run_changes_only_through_its_collaborators
              [of remote_head failing_agent_env pr_12 plain_run clean_tree, THEN conjunct1]
  from mp[OF r1 conjI[OF c1 conjI[OF f1 a1]]] mp[OF r2 conjI[OF c2 conjI[OF f2 a2]]] h
  show ?thesis by (intro conjI)
qed

text \<open>
  Claim C8 (as amended). The action makes no check of the working directory and knows no
  \<open>--skip-checkout\<close>. Whatever the state of the working directory, a run without
  \<open>--dry-run\<close> whose URL parses calls \<open>checkoutPRBranch\<close> first, and when that call
  fails the run ends there: it prints the message of that failure and exits with code
  1, without fetching comments and without calling the agent. With the repository's
  own \<open>checkoutPRBranch\<close> every such run ends so, with the message \<open>Not implemented\<close>,
  whether or not the working directory has uncommitted changes.
\<close>

theorem checkout_failure_ends_the_run_before_the_fetch:
  fixes w' :: "'v"
  shows
  "(parsePRUrl prUrl = Inr p \<and> \<not> truthy (dryRun opts) \<and>
    call_checkout env (prNumber p) (repo_dir env opts) w = (Inl e, w1) \<longrightarrow>
      action env prUrl opts w =
        ([LogProcessingPR prUrl, LogRepositoryDirectory (repo_dir env opts),
          LogParsed (owner p) (repo p) (prNumber p),
          CallCheckout (prNumber p) (repo_dir env opts),
          ConsoleError (error_text e), ProcessExit 1], w1))
   \<and> (parsePRUrl prUrl = Inr p \<and> \<not> truthy (dryRun opts) \<longrightarrow>
      action (repository_env dir) prUrl opts w' =
        ([LogProcessingPR prUrl,
          LogRepositoryDirectory (repo_dir (repository_env dir :: 'v env) opts),
          LogParsed (owner p) (repo p) (prNumber p),
          CallCheckout (prNumber p) (repo_dir (repository_env dir :: 'v env) opts),
          ConsoleError ''Not implemented'', ProcessExit 1], w'))"
proof (intro conjI impI)
  assume "parsePRUrl prUrl = Inr p \<and> \<not> truthy (dryRun opts) \<and>
    call_checkout env (prNumber p) (repo_dir env opts) w = (Inl e, w1)"
  then have p: "parsePRUrl prUrl = Inr p" and d: "\<not> truthy (dryRun opts)"
    and c: "call_checkout env (prNumber p) (repo_dir env opts) w = (Inl e, w1)"
    by simp_all
  from action_raised[OF try_body_checkout_fail[OF p checkout_step_fail[OF d c]]]
  show "action env prUrl opts w =
        ([LogProcessingPR prUrl, LogRepositoryDirectory (repo_dir env opts),
          LogParsed (owner p) (repo p) (prNumber p),
          CallCheckout (prNumber p) (repo_dir env opts),
          ConsoleError (error_text e), ProcessExit 1], w1)"
    by simp
next
  assume "parsePRUrl prUrl = Inr p \<and> \<not> truthy (dryRun opts)"
  then show "action (repository_env dir) prUrl opts w' =
        ([LogProcessingPR prUrl,
          LogRepositoryDirectory (repo_dir (repository_env dir :: 'v env) opts),
          LogParsed (owner p) (repo p) (prNumber p),
          CallCheckout (prNumber p) (repo_dir (repository_env dir :: 'v env) opts),
          ConsoleError ''Not implemented'', ProcessExit 1], w')"
    by (simp add: action_repository_env)
qed

theorem checkout_failure_ends_the_run_before_the_fetch_witness:
  "action guarded_env pr_12 plain_run dirty_tree =
     ([LogProcessingPR pr_12, LogRepositoryDirectory ''/work'',
       LogParsed ''owner'' ''repo'' (Finite 12), CallCheckout (Finite 12) ''/work'',
       ConsoleError ''Working directory is not clean'', ProcessExit 1], dirty_tree)
   \<and> action (repository_env ''/work'') pr_12 plain_run clean_tree =
     ([LogProcessingPR pr_12, LogRepositoryDirectory ''/work'',
       LogParsed ''owner'' ''repo'' (Finite 12), CallCheckout (Finite 12) ''/work'',
       ConsoleError ''Not implemented'', ProcessExit 1], clean_tree)"
proof -
  let ?p = "\<lparr>owner = ''owner'', repo = ''repo'', prNumber = Finite 12\<rparr>"
  have d: "\<not> truthy (dryRun plain_run)" by (simp add: plain_run_def)
  have c: "call_checkout guarded_env (prNumber ?p) (repo_dir guarded_env plain_run) dirty_tree =
           (Inl (Error ''Working directory is not clean''), dirty_tree)"
    by (simp add: run_defs)
  note t = checkout_failure_ends_the_run_before_the_fetch
             [of pr_12 ?p plain_run guarded_env dirty_tree
                 "Error ''Working directory is not clean''" dirty_tree "''/work''" clean_tree]
  from mp[OF conjunct1[OF t] conjI[OF parse_pr_12 conjI[OF d c]]]
  have "action guarded_env pr_12 plain_run dirty_tree =
     ([LogProcessingPR pr_12, LogRepositoryDirectory ''/work'',
       LogParsed ''owner'' ''repo'' (Finite 12), CallCheckout (Finite 12) ''/work'',
       ConsoleError ''Working directory is not clean'', ProcessExit 1], dirty_tree)"
    by (simp add: run_defs)
  moreover from mp[OF conjunct2[OF t] conjI[OF parse_pr_12 d]]
  have "action (repository_env ''/work'') pr_12 plain_run clean_tree =
     ([LogProcessingPR pr_12, LogRepositoryDirectory ''/work'',
       LogParsed ''owner'' ''repo'' (Finite 12), CallCheckout (Finite 12) ''/work'',
       ConsoleError ''Not implemented'', ProcessExit 1], clean_tree)"
    by (simp add: run_defs)
  ultimately show ?thesis by (rule conjI)
qed

text \<open>
  Against claim C8 as stated, on a working directory with an uncommitted path: the
  program with the repository's collaborators fails with \<open>Not implemented\<close>, which is
  no error about the working directory and names no path; with \<open>--dry-run\<close> it does
  reach the fetch; and with collaborators that work, the run calls the agent and ends
  normally.
\<close>

theorem dirty_working_directory_is_not_checked:
  "uncommitted dirty_tree = [''src/a.ts'']
   \<and> fst (action (repository_env ''/work'') pr_12 plain_run dirty_tree) =
       [LogProcessingPR pr_12, LogRepositoryDirectory ''/work'',
        LogParsed ''owner'' ''repo'' (Finite 12), CallCheckout (Finite 12) ''/work'',
        ConsoleError ''Not implemented'', ProcessExit 1]
   \<and> list_ex is_fetch (fst (action (repository_env ''/work'') pr_12 dry_run dirty_tree))
   \<and> list_ex is_agent_call (fst (action working_env pr_12 plain_run dirty_tree))
   \<and> exit_code (fst (action working_env pr_12 plain_run dirty_tree)) = 0"
  by (simp add: run_defs comment_a_def comment_b_def exit_code_def)

text \<open>
  Claim C9 (as amended). The command line has no \<open>--skip-checkout\<close> flag: it accepts
  \<open>--dry-run\<close>, \<open>-d\<close>/\<open>--directory\<close>, and the version and help flags of the library.
  For a run whose URL parses, the checkout is called exactly when \<open>--dry-run\<close> is not
  set; and a checkout that fails is no reason to go on without it: the run then never
  reaches the fetch.
\<close>

theorem checkout_is_bypassed_exactly_by_dry_run:
  "accepted_flags =
     [''--dry-run'', ''-d'', ''--directory'', ''-V'', ''--version'', ''-h'', ''--help'']
   \<and> (parsePRUrl prUrl = Inr p \<longrightarrow>
        (list_ex is_checkout (fst (action env prUrl opts w)) \<longleftrightarrow> \<not> truthy (dryRun opts)))
   \<and> (parsePRUrl prUrl = Inr p \<and> \<not> truthy (dryRun opts) \<and>
        call_checkout env (prNumber p) (repo_dir env opts) w = (Inl e, w1) \<longrightarrow>
        \<not> list_ex is_fetch (fst (action env prUrl opts w)))"
proof (intro conjI impI)
  show "accepted_flags =
     [''--dry-run'', ''-d'', ''--directory'', ''-V'', ''--version'', ''-h'', ''--help'']"
    by (simp add: accepted_flags_def program_options_def flag_names_def)
next
  assume "parsePRUrl prUrl = Inr p"
  then show "list_ex is_checkout (fst (action env prUrl opts w)) \<longleftrightarrow> \<not> truthy (dryRun opts)"
    by (rule action_calls_checkout)
next
  assume "parsePRUrl prUrl = Inr p \<and> \<not> truthy (dryRun opts) \<and>
        call_checkout env (prNumber p) (repo_dir env opts) w = (Inl e, w1)"
  then have p: "parsePRUrl prUrl = Inr p" and d: "\<not> truthy (dryRun opts)"
    and c: "call_checkout env (prNumber p) (repo_dir env opts) w = (Inl e, w1)" by simp_all
  from action_raised[OF try_body_checkout_fail[OF p checkout_step_fail[OF d c]]]
  show "\<not> list_ex is_fetch (fst (action env prUrl opts w))" by simp
qed

theorem checkout_is_bypassed_exactly_by_dry_run_witness:
  "list_ex is_checkout (fst (action working_env pr_12 plain_run clean_tree))
   \<and> \<not> list_ex is_checkout (fst (action working_env pr_12 dry_run clean_tree))
   \<and> \<not> list_ex is_fetch (fst (action guarded_env pr_12 plain_run dirty_tree))"
proof -
  have d: "\<not> truthy (dryRun plain_run)" "truthy (dryRun dry_run)"
    by (simp_all add: plain_run_def dry_run_def)
  have c: "call_checkout guarded_env
             (prNumber \<lparr>owner = ''owner'', repo = ''repo'', prNumber = Finite 12\<rparr>)
             (repo_dir guarded_env plain_run) dirty_tree =
           (Inl (Error ''Working directory is not clean''), dirty_tree)"
    by (simp add: run_defs)
  from parse_pr_12 d(1)
    checkout_is_bypassed_exactly_by_dry_run[of pr_12 _ working_env plain_run clean_tree]
  have "list_ex is_checkout (fst (action working_env pr_12 plain_run clean_tree))"
    by blast
  moreover from parse_pr_12 d(2)
    checkout_is_bypassed_exactly_by_dry_run[of pr_12 _ working_env dry_run clean_tree]
  have "\<not> list_ex is_checkout (fst (action working_env pr_12 dry_run clean_tree))"
    by blast
  moreover from parse_pr_12 d(1) c
    checkout_is_bypassed_exactly_by_dry_run[of pr_12 _ guarded_env plain_run dirty_tree]
  have "\<not> list_ex is_fetch (fst (action guarded_env pr_12 plain_run dirty_tree))"
    by blast
  ultimately show ?thesis by blast
qed

text \<open>Against claim C9 as stated: \<open>--skip-checkout\<close> is not a flag the command line accepts.\<close>

theorem skip_checkout_is_not_a_flag:
  "''--skip-checkout'' \<notin> set accepted_flags"
  by (simp add: accepted_flags_def program_options_def flag_names_def)

text \<open>
  Claim C10. Every failure inside the action takes the same path: a URL that does not
  parse, a checkout that fails, a fetch that fails, and a failure while processing any
  one comment each end the run with the text of what was thrown printed as the last
  line (the message \<open>m\<close> of a thrown \<open>Error\<close> with message \<open>m\<close>, the string form \<open>m\<close> of
  any other thrown value) and \<open>process.exit(1)\<close> after it, so with exit code 1; the
  exit code of a run is 1 or 0 and nothing else. A failure on one comment is thereby
  fatal to the run.
\<close>

theorem every_failure_prints_the_message_and_exits_1:
  "((e = Error m \<or> e = NonError m) \<and> parsePRUrl prUrl = Inl e \<longrightarrow>
      ends_in_failure (fst (action env prUrl opts w)) m)
   \<and> ((e = Error m \<or> e = NonError m) \<and> parsePRUrl prUrl = Inr p \<and>
        \<not> truthy (dryRun opts) \<and>
        call_checkout env (prNumber p) (repo_dir env opts) w = (Inl e, w1) \<longrightarrow>
        ends_in_failure (fst (action env prUrl opts w)) m)
   \<and> ((e = Error m \<or> e = NonError m) \<and> parsePRUrl prUrl = Inr p \<and>
        checkout_step env opts (prNumber p) (repo_dir env opts) w = (t2, w1, None) \<and>
        call_fetch env (owner p) (repo p) (prNumber p) w1 = (Inl e, w2) \<longrightarrow>
        ends_in_failure (fst (action env prUrl opts w)) m)
   \<and> ((e = Error m \<or> e = NonError m) \<and> parsePRUrl prUrl = Inr p \<and>
        checkout_step env opts (prNumber p) (repo_dir env opts) w = (t2, w1, None) \<and>
        call_fetch env (owner p) (repo p) (prNumber p) w1 = (Inr (cs1 @ c # cs2), w2) \<and>
        \<not> truthy (dryRun opts) \<and>
        process_comments env opts cs1 w2 = (t4, w3, None) \<and>
        call_process env c w3 = (Inl e, w4) \<longrightarrow>
        ends_in_failure (fst (action env prUrl opts w)) m)
   \<and> (exit_code (fst (action env prUrl opts w)) = 0 \<or>
        exit_code (fst (action env prUrl opts w)) = 1)"
proof (intro conjI impI)
  assume "(e = Error m \<or> e = NonError m) \<and> parsePRUrl prUrl = Inl e"
  then have e: "e = Error m \<or> e = NonError m" and p: "parsePRUrl prUrl = Inl e"
    by simp_all
  from action_ends_in_failure[OF try_body_parse_fail[OF p] e]
  show "ends_in_failure (fst (action env prUrl opts w)) m" .
next
  assume "(e = Error m \<or> e = NonError m) \<and> parsePRUrl prUrl = Inr p \<and>
        \<not> truthy (dryRun opts) \<and>
        call_checkout env (prNumber p) (repo_dir env opts) w = (Inl e, w1)"
  then have e: "e = Error m \<or> e = NonError m"
    and p: "parsePRUrl prUrl = Inr p" and d: "\<not> truthy (dryRun opts)"
    and c: "call_checkout env (prNumber p) (repo_dir env opts) w = (Inl e, w1)" by simp_all
  from action_ends_in_failure[OF try_body_checkout_fail[OF p checkout_step_fail[OF d c]] e]
  show "ends_in_failure (fst (action env prUrl opts w)) m" .
next
  assume "(e = Error m \<or> e = NonError m) \<and> parsePRUrl prUrl = Inr p \<and>
        checkout_step env opts (prNumber p) (repo_dir env opts) w = (t2, w1, None) \<and>
        call_fetch env (owner p) (repo p) (prNumber p) w1 = (Inl e, w2)"
  then have e: "e = Error m \<or> e = NonError m"
    and p: "parsePRUrl prUrl = Inr p"
    and c: "checkout_step env opts (prNumber p) (repo_dir env opts) w = (t2, w1, None)"
    and f: "call_fetch env (owner p) (repo p) (prNumber p) w1 = (Inl e, w2)" by simp_all
  from action_ends_in_failure[OF try_body_fetch_fail[OF p c f] e]
  show "ends_in_failure (fst (action env prUrl opts w)) m" .
next
  assume "(e = Error m \<or> e = NonError m) \<and> parsePRUrl prUrl = Inr p \<and>
        checkout_step env opts (prNumber p) (repo_dir env opts) w = (t2, w1, None) \<and>
        call_fetch env (owner p) (repo p) (prNumber p) w1 = (Inr (cs1 @ c # cs2), w2) \<and>
        \<not> truthy (dryRun opts) \<and>
        process_comments env opts cs1 w2 = (t4, w3, None) \<and>
        call_process env c w3 = (Inl e, w4)"
  then have e: "e = Error m \<or> e = NonError m"
    and p: "parsePRUrl prUrl = Inr p"
    and c: "checkout_step env opts (prNumber p) (repo_dir env opts) w = (t2, w1, None)"
    and f: "call_fetch env (owner p) (repo p) (prNumber p) w1 = (Inr (cs1 @ c # cs2), w2)"
    and d: "\<not> truthy (dryRun opts)"
    and l: "process_comments env opts cs1 w2 = (t4, w3, None)"
    and a: "call_process env c w3 = (Inl e, w4)" by simp_all
  from try_body_loop[OF p c f process_comments_failure[OF d l a]]
  have "\<exists>t. try_body env prUrl opts w = (t, w4, Some e)" by simp
  then obtain t where "try_body env prUrl opts w = (t, w4, Some e)" ..
  from action_ends_in_failure[OF this e]
  show "ends_in_failure (fst (action env prUrl opts w)) m" .
next
  show "exit_code (fst (action env prUrl opts w)) = 0 \<or>
        exit_code (fst (action env prUrl opts w)) = 1"
    by (simp add: exit_code_action split: option.splits)
qed

theorem every_failure_prints_the_message_and_exits_1_witness:
  "ends_in_failure (fst (action working_env ''pull/12'' plain_run clean_tree))
     ''Invalid GitHub PR URL: pull/12. Expected format: https://github.com/owner/repo/pull/123''
   \<and> ends_in_failure (fst (action guarded_env pr_12 plain_run dirty_tree))
       ''Working directory is not clean''
   \<and> ends_in_failure (fst (action text_throwing_env pr_12 plain_run clean_tree))
       ''no such branch''
   \<and> ends_in_failure (fst (action (repository_env ''/work'') pr_12 dry_run clean_tree))
       ''Not implemented''
   \<and> ends_in_failure (fst (action failing_agent_env pr_12 plain_run clean_tree))
       ''Not implemented''"
proof -
  let ?p = "\<lparr>owner = ''owner'', repo = ''repo'', prNumber = Finite 12\<rparr>"
  let ?w1 = "\<lparr>head_commit = ''pr-head'', uncommitted = [], remote_head = ''base''\<rparr>"
  let ?u = "''Invalid GitHub PR URL: pull/12. Expected format: https://github.com/owner/repo/pull/123''"
  note t = every_failure_prints_the_message_and_exits_1
  have u: "parsePRUrl ''pull/12'' = Inl (Error ?u)"
    by (simp add: parsePRUrl_def match_pattern_def invalid_url_message_def)
  have d: "\<not> truthy (dryRun plain_run)" by (simp add: plain_run_def)
  have c2: "call_checkout guarded_env (prNumber ?p) (repo_dir guarded_env plain_run) dirty_tree =
           (Inl (Error ''Working directory is not clean''), dirty_tree)"
    by (simp add: run_defs)
  have c2': "call_checkout text_throwing_env (prNumber ?p)
               (repo_dir text_throwing_env plain_run) clean_tree =
           (Inl (NonError ''no such branch''), clean_tree)"
    by (simp add: run_defs)
  have c3: "checkout_step (repository_env ''/work'') dry_run (prNumber ?p)
              (repo_dir (repository_env ''/work'') dry_run) clean_tree = ([], clean_tree, None)"
    by (simp add: run_defs)
  have f3: "call_fetch (repository_env ''/work'') (owner ?p) (repo ?p) (prNumber ?p) clean_tree =
              (Inl (Error ''Not implemented''), clean_tree)"
    by (simp add: run_defs)
  have c4: "checkout_step failing_agent_env plain_run (prNumber ?p)
              (repo_dir failing_agent_env plain_run) clean_tree =
            ([CallCheckout (Finite 12) ''/work'', LogCheckedOut], ?w1, None)"
    by (simp add: run_defs)
  have f4: "call_fetch failing_agent_env (owner ?p) (repo ?p) (prNumber ?p) ?w1 =
              (Inr ([] @ comment_a # [comment_b]), ?w1)"
    by (simp add: run_defs)
  have l4: "process_comments failing_agent_env plain_run [] ?w1 = ([], ?w1, None)"
    by simp
  have a4: "call_process failing_agent_env comment_a ?w1 = (Inl (Error ''Not implemented''), ?w1)"
    by (simp add: run_defs)
  have e1: "Error ?u = Error ?u \<or> Error ?u = NonError ?u" by simp
  have e2: "Error ''Working directory is not clean'' = Error ''Working directory is not clean''
            \<or> Error ''Working directory is not clean'' =
               NonError ''Working directory is not clean''" by simp
  have e2': "NonError ''no such branch'' = Error ''no such branch''
            \<or> NonError ''no such branch'' = NonError ''no such branch''" by simp
  have e3: "Error ''Not implemented'' = Error ''Not implemented''
            \<or> Error ''Not implemented'' = NonError ''Not implemented''" by simp
  have "ends_in_failure (fst (action working_env ''pull/12'' plain_run clean_tree)) ?u"
    by (rule mp[OF conjunct1[OF t[of "Error ?u" ?u "''pull/12''" working_env plain_run
                                    clean_tree]]
                   conjI[OF e1 u]])
  moreover
  have "ends_in_failure (fst (action guarded_env pr_12 plain_run dirty_tree))
       ''Working directory is not clean''"
    by (rule mp[OF conjunct1[OF conjunct2[OF
                  t[of "Error ''Working directory is not clean''"
                       "''Working directory is not clean''" pr_12 guarded_env plain_run
                       dirty_tree ?p dirty_tree]]]
                   conjI[OF e2 conjI[OF parse_pr_12 conjI[OF d c2]]]])
  moreover
  have "ends_in_failure (fst (action text_throwing_env pr_12 plain_run clean_tree))
       ''no such branch''"
    by (rule mp[OF conjunct1[OF conjunct2[OF
                  t[of "NonError ''no such branch''" "''no such branch''" pr_12
                       text_throwing_env plain_run clean_tree ?p clean_tree]]]
                   conjI[OF e2' conjI[OF parse_pr_12 conjI[OF d c2']]]])
  moreover
  have "ends_in_failure (fst (action (repository_env ''/work'') pr_12 dry_run clean_tree))
       ''Not implemented''"
    by (rule mp[OF conjunct1[OF conjunct2[OF conjunct2[OF
                  t[of "Error ''Not implemented''" "''Not implemented''" pr_12
                       "repository_env ''/work''" dry_run clean_tree ?p clean_tree "[]"
                       clean_tree]]]]
                   conjI[OF e3 conjI[OF parse_pr_12 conjI[OF c3 f3]]]])
  moreover
  have "ends_in_failure (fst (action failing_agent_env pr_12 plain_run clean_tree))
       ''Not implemented''"
    by (rule mp[OF conjunct1[OF conjunct2[OF conjunct2[OF conjunct2[OF
                  t[of "Error ''Not implemented''" "''Not implemented''" pr_12
                       failing_agent_env plain_run clean_tree ?p ?w1
                       "[CallCheckout (Finite 12) ''/work'', LogCheckedOut]" ?w1
                       "[]" comment_a "[comment_b]" "[]" ?w1 ?w1]]]]]
                   conjI[OF e3 conjI[OF parse_pr_12 conjI[OF c4 conjI[OF f4 conjI[OF d
                     conjI[OF l4 a4]]]]]]])
  ultimately show ?thesis by (intro conjI)
qed

end
